theory Spec2Isabelle
  imports Complex_Main
begin

section \<open>The numpy arrays the wrapper works on\<close>

text \<open>
  \<^verbatim>\<open>pyneural.pyx\<close> is a Cython wrapper around two C routines. Everything it does is
  allocating, copying and handing out numpy arrays, so the model is an explicit store of
  arrays: an address is an index into the store and names an array that owns its data.

  An array has a dtype, a shape and its elements in C (row-major) order. The element type
  \<open>'a\<close> is left open: the wrapper never computes with an element, it only casts
  (\<^verbatim>\<open>astype(np.float32)\<close>), and the cast is a parameter of the model. A cast to the
  dtype an array already has copies the elements unchanged. The store never runs out of
  room: no allocation raises \<^verbatim>\<open>MemoryError\<close>.
\<close>

datatype dtype = Float32 | Float64 | Int64

record 'a ndarray =
  dtype :: dtype
  shape :: "nat list"
  elems :: "'a list"

type_synonym addr = nat

record ('a, 'r) world =
  heap :: "'a ndarray list"
  rng :: 'r

datatype error =
    AssertionError
  | ValueError
  | OverflowError
  | IndexError
  | NullPointer
  | UnpicklingError

text \<open>\<^verbatim>\<open>np.size(x)\<close>: the number of elements, the product of the shape.\<close>

definition np_size :: "'a ndarray \<Rightarrow> nat" where
  "np_size x = prod_list (shape x)"

text \<open>A new array object: it gets the next free address.\<close>

definition alloc :: "'a ndarray \<Rightarrow> ('a, 'r) world \<Rightarrow> addr \<times> ('a, 'r) world" where
  "alloc x w = (length (heap w), w\<lparr>heap := heap w @ [x]\<rparr>)"

text \<open>
  A reference a caller holds is either to an array that owns its data, or to a view: a
  distinct array object that has a shape of its own and whose elements are positions in
  the data of another array (a slice, a reshape or a transpose of it; \<open>positions\<close> lists
  them in the C order of the view). Every array the wrapper makes owns its data.
\<close>

datatype aref = Whole addr | View addr "nat list" "nat list"

fun base_of :: "aref \<Rightarrow> addr" where
  "base_of (Whole a) = a"
| "base_of (View a sh ps) = a"

text \<open>The array a reference stands for, as numpy reads it.\<close>

fun read :: "'a ndarray list \<Rightarrow> aref \<Rightarrow> 'a ndarray" where
  "read h (Whole a) = h ! a"
| "read h (View a sh ps) =
     \<lparr>dtype = dtype (h ! a), shape = sh, elems = map (\<lambda>i. elems (h ! a) ! i) ps\<rparr>"

text \<open>
  \<^verbatim>\<open>x[i] = v\<close> on a flat index, done by a caller who holds the reference \<open>x\<close>: the
  data is changed in place, through a view in the data of the array it views.
\<close>

fun flat_position :: "aref \<Rightarrow> nat \<Rightarrow> nat" where
  "flat_position (Whole a) i = i"
| "flat_position (View a sh ps) i = ps ! i"

definition ndarray_setitem :: "aref \<Rightarrow> nat \<Rightarrow> 'a \<Rightarrow> ('a, 'r) world \<Rightarrow> ('a, 'r) world" where
  "ndarray_setitem x i v w =
     w\<lparr>heap := (heap w)[base_of x :=
            (heap w ! base_of x)\<lparr>elems := (elems (heap w ! base_of x))[flat_position x i := v]\<rparr>]\<rparr>"

text \<open>
  A C routine writes through a raw pointer into a buffer of fixed size: the buffer keeps
  its length, and the entries the routine does not supply stay as they were.
\<close>

definition fit :: "'a list \<Rightarrow> 'a list \<Rightarrow> 'a list" where
  "fit old new = take (length old) new @ drop (length new) old"

definition poke :: "addr \<Rightarrow> 'a list \<Rightarrow> 'a ndarray list \<Rightarrow> 'a ndarray list" where
  "poke a xs h = h[a := (h ! a)\<lparr>elems := fit (elems (h ! a)) xs\<rparr>]"

section \<open>What the wrapper takes from outside\<close>

text \<open>
  The C struct \<^verbatim>\<open>neural_net_layer\<close> of \<^verbatim>\<open>neural.h\<close> as a C routine sees it: the
  contents of the four buffers behind its pointers, and the two sizes. The \<^verbatim>\<open>prev\<close>
  and \<^verbatim>\<open>next\<close> pointers are the order of the list the layers are handed over in.
\<close>

record 'a neural_net_layer =
  c_bias :: "'a list"
  c_theta :: "'a list"
  c_act :: "'a list"
  c_delta :: "'a list"
  c_in_nodes :: int
  c_out_nodes :: int

text \<open>
  The library and C functions the wrapper calls are parameters of the model:
  \<^item> \<open>next_rand\<close>: one draw of \<^verbatim>\<open>np.random.rand\<close> (a float64);
  \<^item> \<open>rand_below\<close>: one integer draw of the generator, used by
    \<^verbatim>\<open>np.random.permutation\<close>;
  \<^item> \<open>affine\<close>: \<^verbatim>\<open>0.24 * x - 0.12\<close> in float64;
  \<^item> \<open>cast32\<close>: \<^verbatim>\<open>astype(np.float32)\<close> of one element of the given dtype;
  \<^item> \<open>zero32\<close>: the float32 zero of \<^verbatim>\<open>np.zeros\<close>;
  \<^item> \<open>neural_train_iteration\<close>: the C routine of that name. It is given the layer
    chain, the contents of the two data buffers, \<^verbatim>\<open>n_samples\<close>, \<^verbatim>\<open>batch_size\<close>,
    \<^verbatim>\<open>alpha\<close> and \<^verbatim>\<open>lamb\<close>, and returns the new contents of the four buffers of
    every layer (it returns \<^verbatim>\<open>void\<close> and works in place);
  \<^item> \<open>neural_predict_prob\<close>: the C routine of that name. Modelled from the spec: the
    source of \<^verbatim>\<open>neural_predict_prob\<close> is not part of the wrapper; the forward pass
    reads \<^verbatim>\<open>bias\<close> and \<^verbatim>\<open>theta\<close> and writes only the activation buffers and the
    output matrix. So the routine is given the layer chain, the features,
    \<^verbatim>\<open>n_samples\<close> and \<^verbatim>\<open>batch_size\<close>, and returns the new contents of the
    \<^verbatim>\<open>act\<close> and \<^verbatim>\<open>delta\<close> buffers of every layer and of \<^verbatim>\<open>preds\<close>.
\<close>

record ('a, 'r, 'f) env =
  next_rand :: "'r \<Rightarrow> 'a \<times> 'r"
  rand_below :: "'r \<Rightarrow> nat \<Rightarrow> nat \<times> 'r"
  affine :: "'a \<Rightarrow> 'a"
  cast32 :: "dtype \<Rightarrow> 'a \<Rightarrow> 'a"
  zero32 :: 'a
  neural_train_iteration ::
    "'a neural_net_layer list \<Rightarrow> 'a list \<Rightarrow> 'a list \<Rightarrow> int \<Rightarrow> int \<Rightarrow> 'f \<Rightarrow> 'f
       \<Rightarrow> 'a neural_net_layer list"
  neural_predict_prob ::
    "'a neural_net_layer list \<Rightarrow> 'a list \<Rightarrow> int \<Rightarrow> int \<Rightarrow> ('a list \<times> 'a list) list \<times> 'a list"

text \<open>\<^verbatim>\<open>np.random.rand(n)\<close>: \<open>n\<close> draws, one after the other.\<close>

primrec np_random_rand :: "('a, 'r, 'f) env \<Rightarrow> nat \<Rightarrow> 'r \<Rightarrow> 'a list \<times> 'r" where
  "np_random_rand env 0 r = ([], r)"
| "np_random_rand env (Suc n) r =
     (let (x, r1) = next_rand env r; (xs, r2) = np_random_rand env n r1 in (x # xs, r2))"

text \<open>
  \<^verbatim>\<open>np.random.permutation(n)\<close>: \<^verbatim>\<open>arange(n)\<close> shuffled in place, position \<open>i\<close>
  from the top down swapped with a drawn position \<open>j \<le> i\<close>.
\<close>

primrec shuffle :: "('a, 'r, 'f) env \<Rightarrow> nat \<Rightarrow> nat list \<Rightarrow> 'r \<Rightarrow> nat list \<times> 'r" where
  "shuffle env 0 xs r = (xs, r)"
| "shuffle env (Suc i) xs r =
     (let (d, r1) = rand_below env r (Suc (Suc i)); j = d mod Suc (Suc i)
      in shuffle env i (xs[Suc i := xs ! j, j := xs ! Suc i]) r1)"

definition np_random_permutation :: "('a, 'r, 'f) env \<Rightarrow> nat \<Rightarrow> 'r \<Rightarrow> nat list \<times> 'r" where
  "np_random_permutation env n r = shuffle env (n - 1) [0..<n] r"

text \<open>\<^verbatim>\<open>np.zeros(n, dtype=np.float32, order='C')\<close> and the same with a shape.\<close>

definition np_zeros :: "('a, 'r, 'f) env \<Rightarrow> nat list \<Rightarrow> 'a ndarray" where
  "np_zeros env sh = \<lparr>dtype = Float32, shape = sh, elems = replicate (prod_list sh) (zero32 env)\<rparr>"

text \<open>
  \<^verbatim>\<open>x.copy(order='C').astype(np.float32)\<close>: a new float32 array of the same shape.
  The intermediate copy is dropped at once, so only the result is an object of the store.
\<close>

definition copy_f32 :: "('a, 'r, 'f) env \<Rightarrow> 'a ndarray \<Rightarrow> 'a ndarray" where
  "copy_f32 env x =
     \<lparr>dtype = Float32, shape = shape x,
      elems = (if dtype x = Float32 then elems x else map (cast32 env (dtype x)) (elems x))\<rparr>"

text \<open>
  \<^verbatim>\<open>x[idx]\<close> for an index array \<^verbatim>\<open>idx\<close>: the rows of \<open>x\<close> along its first axis, in
  the order of \<^verbatim>\<open>idx\<close>, as a new array.
\<close>

definition row_size :: "'a ndarray \<Rightarrow> nat" where
  "row_size x = prod_list (tl (shape x))"

definition row :: "'a ndarray \<Rightarrow> nat \<Rightarrow> 'a list" where
  "row x i = take (row_size x) (drop (i * row_size x) (elems x))"

definition take_rows :: "'a ndarray \<Rightarrow> nat list \<Rightarrow> 'a ndarray" where
  "take_rows x idx = x\<lparr>shape := length idx # tl (shape x), elems := concat (map (row x) idx)\<rparr>"

section \<open>C integers\<close>

text \<open>
  The fields declared \<^verbatim>\<open>cdef int\<close> hold 32-bit C integers. Storing a Python integer
  that does not fit raises \<^verbatim>\<open>OverflowError\<close>; a product of two such fields is computed
  in C and wraps around.
\<close>

definition c_int_ok :: "int \<Rightarrow> bool" where
  "c_int_ok n \<longleftrightarrow> - (2 ^ 31) \<le> n \<and> n < 2 ^ 31"

definition c_int_mul :: "int \<Rightarrow> int \<Rightarrow> int" where
  "c_int_mul a b = (a * b + 2 ^ 31) mod 2 ^ 32 - 2 ^ 31"

section \<open>\<^verbatim>\<open>NetLayer\<close>\<close>

text \<open>
  The Python object and the C struct \<^verbatim>\<open>_net_layer\<close> inside it are one record: every
  assignment to \<^verbatim>\<open>self.bias\<close>, \<^verbatim>\<open>self.theta\<close>, \<^verbatim>\<open>self.act\<close> or
  \<^verbatim>\<open>self.delta\<close> is followed by the assignment of the array's data pointer to the
  struct, so the struct's pointer is the address of the array. \<^verbatim>\<open>act\<close> and
  \<^verbatim>\<open>delta\<close> are \<^verbatim>\<open>None\<close> (and the struct's pointers null) until
  \<^verbatim>\<open>set_batch\<close> is called.
\<close>

record NetLayer =
  bias :: addr
  theta :: addr
  act :: "addr option"
  delta :: "addr option"
  in_nodes :: int
  out_nodes :: int

definition NetLayer_init ::
  "('a, 'r, 'f) env \<Rightarrow> int \<Rightarrow> int \<Rightarrow> ('a, 'r) world \<Rightarrow> (error + NetLayer) \<times> ('a, 'r) world" where
  "NetLayer_init env inn out w =
     (if out < 0 then (Inl ValueError, w)
      else
        let (bs, r1) = np_random_rand env (nat out) (rng w);
            (b, w1) = alloc \<lparr>dtype = Float32, shape = [nat out],
                              elems = map (\<lambda>x. cast32 env Float64 (affine env x)) bs\<rparr>
                        (w\<lparr>rng := r1\<rparr>)
        in if out * inn < 0 then (Inl ValueError, w1)
           else
             let (ts, r2) = np_random_rand env (nat (out * inn)) (rng w1);
                 (t, w2) = alloc \<lparr>dtype = Float32, shape = [nat (out * inn)],
                                   elems = map (\<lambda>x. cast32 env Float64 (affine env x)) ts\<rparr>
                             (w1\<lparr>rng := r2\<rparr>)
             in if \<not> c_int_ok inn \<or> \<not> c_int_ok out then (Inl OverflowError, w2)
                else (Inr \<lparr>bias = b, theta = t, act = None, delta = None,
                           in_nodes = inn, out_nodes = out\<rparr>, w2))"

definition NetLayer_set_batch ::
  "('a, 'r, 'f) env \<Rightarrow> NetLayer \<Rightarrow> int \<Rightarrow> ('a, 'r) world
     \<Rightarrow> (error + unit) \<times> NetLayer \<times> ('a, 'r) world" where
  "NetLayer_set_batch env l batch_size w =
     (if in_nodes l * batch_size < 0 then (Inl ValueError, l, w)
      else
        let (a, w1) = alloc (np_zeros env [nat (in_nodes l * batch_size)]) w;
            (d, w2) = alloc (np_zeros env [nat (in_nodes l * batch_size)]) w1
        in (Inr (), l\<lparr>act := Some a, delta := Some d\<rparr>, w2))"

text \<open>\<^verbatim>\<open>return self.bias, self.theta\<close>: the two references themselves.\<close>

definition NetLayer_get_params :: "NetLayer \<Rightarrow> aref \<times> aref" where
  "NetLayer_get_params l = (Whole (bias l), Whole (theta l))"

text \<open>
  Both assertions come first, on \<^verbatim>\<open>np.size\<close>; the second compares with the product
  of the two C integers.
\<close>

definition NetLayer_set_params ::
  "('a, 'r, 'f) env \<Rightarrow> NetLayer \<Rightarrow> aref \<Rightarrow> aref \<Rightarrow> ('a, 'r) world
     \<Rightarrow> (error + unit) \<times> NetLayer \<times> ('a, 'r) world" where
  "NetLayer_set_params env l b t w =
     (if int (np_size (read (heap w) b)) \<noteq> out_nodes l then (Inl AssertionError, l, w)
      else if int (np_size (read (heap w) t)) \<noteq> c_int_mul (out_nodes l) (in_nodes l)
        then (Inl AssertionError, l, w)
      else
        let (b', w1) = alloc (copy_f32 env (read (heap w) b)) w;
            (t', w2) = alloc (copy_f32 env (read (heap w) t)) w1
        in (Inr (), l\<lparr>bias := b', theta := t'\<rparr>, w2))"

section \<open>\<^verbatim>\<open>NeuralNet\<close>\<close>

text \<open>
  \<^verbatim>\<open>head\<close>, \<^verbatim>\<open>tail\<close> and the \<^verbatim>\<open>prev\<close>/\<^verbatim>\<open>next\<close> links are the list
  \<open>chain\<close>: \<^verbatim>\<open>head\<close> is its first layer, \<^verbatim>\<open>tail\<close> its last, and every
  \<^verbatim>\<open>while curr != None\<close> loop of the source walks it from left to right. No method hands
  a \<^verbatim>\<open>NetLayer\<close> out, so the layers are held by value; the arrays are in the store.
\<close>

record NeuralNet =
  layers :: "int list"
  n_features :: int
  n_labels :: int
  batch_size :: int
  chain :: "NetLayer list"

fun build_chain ::
  "('a, 'r, 'f) env \<Rightarrow> (int \<times> int) list \<Rightarrow> ('a, 'r) world
     \<Rightarrow> (error + NetLayer list) \<times> ('a, 'r) world" where
  "build_chain env [] w = (Inr [], w)"
| "build_chain env ((i, out) # ps) w =
     (case NetLayer_init env i out w of
        (Inl e, w1) \<Rightarrow> (Inl e, w1)
      | (Inr l, w1) \<Rightarrow>
          (case build_chain env ps w1 of
             (Inl e, w2) \<Rightarrow> (Inl e, w2)
           | (Inr ls, w2) \<Rightarrow> (Inr (l # ls), w2)))"

text \<open>
  \<^verbatim>\<open>random_init\<close>: a layer \<^verbatim>\<open>NetLayer(layers[k], layers[k + 1])\<close> for every
  \<open>k\<close> but the last, then the tail \<^verbatim>\<open>NetLayer(layers[-1], 0)\<close>.
\<close>

definition random_init ::
  "('a, 'r, 'f) env \<Rightarrow> int list \<Rightarrow> ('a, 'r) world \<Rightarrow> (error + NetLayer list) \<times> ('a, 'r) world" where
  "random_init env ls w =
     (if length ls < 2 then (Inl IndexError, w)
      else build_chain env (zip ls (tl ls @ [0])) w)"

fun set_batch_chain ::
  "('a, 'r, 'f) env \<Rightarrow> NetLayer list \<Rightarrow> int \<Rightarrow> ('a, 'r) world
     \<Rightarrow> (error + unit) \<times> NetLayer list \<times> ('a, 'r) world" where
  "set_batch_chain env [] bs w = (Inr (), [], w)"
| "set_batch_chain env (l # ls) bs w =
     (case NetLayer_set_batch env l bs w of
        (Inl e, l1, w1) \<Rightarrow> (Inl e, l1 # ls, w1)
      | (Inr u, l1, w1) \<Rightarrow>
          (case set_batch_chain env ls bs w1 of (r, ls1, w2) \<Rightarrow> (r, l1 # ls1, w2)))"

definition NeuralNet_set_batch ::
  "('a, 'r, 'f) env \<Rightarrow> NeuralNet \<Rightarrow> int \<Rightarrow> ('a, 'r) world
     \<Rightarrow> (error + unit) \<times> NeuralNet \<times> ('a, 'r) world" where
  "NeuralNet_set_batch env net bs w =
     (if \<not> c_int_ok bs then (Inl OverflowError, net, w)
      else
        (case set_batch_chain env (chain net) bs w of
           (r, ch, w1) \<Rightarrow> (r, net\<lparr>batch_size := bs, chain := ch\<rparr>, w1)))"

definition NeuralNet_init ::
  "('a, 'r, 'f) env \<Rightarrow> int list \<Rightarrow> ('a, 'r) world \<Rightarrow> (error + NeuralNet) \<times> ('a, 'r) world" where
  "NeuralNet_init env ls w =
     (if \<not> length ls \<ge> 2 then (Inl AssertionError, w)
      else if \<not> c_int_ok (hd ls) then (Inl OverflowError, w)
      else if \<not> c_int_ok (last ls) then (Inl OverflowError, w)
      else
        (case random_init env ls w of
           (Inl e, w1) \<Rightarrow> (Inl e, w1)
         | (Inr ch, w1) \<Rightarrow>
             (case NeuralNet_set_batch env
                     \<lparr>layers = ls, n_features = hd ls, n_labels = last ls,
                      batch_size = 0, chain = ch\<rparr> 100 w1 of
                (Inl e, net, w2) \<Rightarrow> (Inl e, w2)
              | (Inr u, net, w2) \<Rightarrow> (Inr net, w2))))"

definition NeuralNet_get_params :: "NeuralNet \<Rightarrow> (aref \<times> aref) list" where
  "NeuralNet_get_params net = map NetLayer_get_params (chain net)"

fun set_params_chain ::
  "('a, 'r, 'f) env \<Rightarrow> NetLayer list \<Rightarrow> (aref \<times> aref) list \<Rightarrow> ('a, 'r) world
     \<Rightarrow> (error + unit) \<times> NetLayer list \<times> ('a, 'r) world" where
  "set_params_chain env [] ps w = (Inr (), [], w)"
| "set_params_chain env (l # ls) [] w = (Inl IndexError, l # ls, w)"
| "set_params_chain env (l # ls) ((b, t) # ps) w =
     (case NetLayer_set_params env l b t w of
        (Inl e, l1, w1) \<Rightarrow> (Inl e, l1 # ls, w1)
      | (Inr u, l1, w1) \<Rightarrow>
          (case set_params_chain env ls ps w1 of (r, ls1, w2) \<Rightarrow> (r, l1 # ls1, w2)))"

definition NeuralNet_set_params ::
  "('a, 'r, 'f) env \<Rightarrow> NeuralNet \<Rightarrow> (aref \<times> aref) list \<Rightarrow> ('a, 'r) world
     \<Rightarrow> (error + unit) \<times> NeuralNet \<times> ('a, 'r) world" where
  "NeuralNet_set_params env net params w =
     (if length params \<noteq> length (layers net) then (Inl AssertionError, net, w)
      else
        (case set_params_chain env (chain net) params w of
           (r, ch, w1) \<Rightarrow> (r, net\<lparr>chain := ch\<rparr>, w1)))"

subsection \<open>Calling the C routines\<close>

text \<open>
  What \<^verbatim>\<open>get_ptr()\<close> gives a C routine: the struct of each layer of the chain, read
  through its pointers. A layer without buffers has null pointers there, and the call
  does not return.
\<close>

definition c_layer :: "'a ndarray list \<Rightarrow> NetLayer \<Rightarrow> 'a neural_net_layer option" where
  "c_layer h l =
     (case (act l, delta l) of
        (Some a, Some d) \<Rightarrow>
          Some \<lparr>c_bias = elems (h ! bias l), c_theta = elems (h ! theta l),
                c_act = elems (h ! a), c_delta = elems (h ! d),
                c_in_nodes = in_nodes l, c_out_nodes = out_nodes l\<rparr>
      | _ \<Rightarrow> None)"

definition c_chain :: "'a ndarray list \<Rightarrow> NetLayer list \<Rightarrow> 'a neural_net_layer list option" where
  "c_chain h ls = (if ls = [] then None else those (map (c_layer h) ls))"

fun poke_scratch ::
  "NetLayer list \<Rightarrow> ('a list \<times> 'a list) list \<Rightarrow> 'a ndarray list \<Rightarrow> 'a ndarray list" where
  "poke_scratch (l # ls) ((xa, xd) # outs) h =
     (case (act l, delta l) of
        (Some a, Some d) \<Rightarrow> poke_scratch ls outs (poke d xd (poke a xa h))
      | _ \<Rightarrow> poke_scratch ls outs h)"
| "poke_scratch ls outs h = h"

fun poke_layers ::
  "NetLayer list \<Rightarrow> 'a neural_net_layer list \<Rightarrow> 'a ndarray list \<Rightarrow> 'a ndarray list" where
  "poke_layers (l # ls) (c # cs) h =
     (case (act l, delta l) of
        (Some a, Some d) \<Rightarrow>
          poke_layers ls cs
            (poke d (c_delta c) (poke a (c_act c)
               (poke (theta l) (c_theta c) (poke (bias l) (c_bias c) h))))
      | _ \<Rightarrow> poke_layers ls cs h)"
| "poke_layers ls cs h = h"

subsection \<open>\<^verbatim>\<open>train\<close>\<close>

text \<open>
  The assertions of \<^verbatim>\<open>train\<close>, in the order of the source. \<^verbatim>\<open>x.shape[k]\<close> raises
  \<^verbatim>\<open>IndexError\<close> when \<open>x\<close> has no axis \<open>k\<close>. The two \<^verbatim>\<open>isinstance\<close>
  assertions hold by typing: the arguments are arrays of the store.
\<close>

definition train_check :: "NeuralNet \<Rightarrow> 'a ndarray \<Rightarrow> 'a ndarray \<Rightarrow> int \<Rightarrow> error option" where
  "train_check net F L bs =
     (if length (shape F) < 1 then Some IndexError
      else if length (shape L) < 1 then Some IndexError
      else if shape F ! 0 \<noteq> shape L ! 0 then Some AssertionError
      else if length (shape F) < 2 then Some IndexError
      else if int (shape F ! 1) \<noteq> n_features net then Some AssertionError
      else if length (shape L) < 2 then Some IndexError
      else if int (shape L ! 1) \<noteq> n_labels net then Some AssertionError
      else if \<not> bs > 0 then Some AssertionError
      else None)"

text \<open>
  One pass of the loop body: the permutation, the two shuffled float32 copies (locals of
  the loop body, dropped at its end, so not objects of the store), and the call of the C
  routine, which works in place on the buffers of the layers. The row count
  \<^verbatim>\<open>features.shape[0]\<close> becomes the C \<^verbatim>\<open>int n_samples\<close> of the call: a count that
  does not fit raises \<^verbatim>\<open>OverflowError\<close> when the arguments are converted, after the
  permutation was drawn and before the routine runs.
\<close>

definition train_epoch ::
  "('a, 'r, 'f) env \<Rightarrow> NeuralNet \<Rightarrow> aref \<Rightarrow> aref \<Rightarrow> int \<Rightarrow> 'f \<Rightarrow> 'f \<Rightarrow> ('a, 'r) world
     \<Rightarrow> (error + unit) \<times> ('a, 'r) world" where
  "train_epoch env net f l bs alpha lamb w =
     (let (idx, r1) = np_random_permutation env (shape (read (heap w) f) ! 0) (rng w);
          xf = copy_f32 env (take_rows (read (heap w) f) idx);
          xl = copy_f32 env (take_rows (read (heap w) l) idx);
          w1 = w\<lparr>rng := r1\<rparr>
      in if \<not> c_int_ok (int (shape (read (heap w) f) ! 0)) then (Inl OverflowError, w1)
         else
           (case c_chain (heap w1) (chain net) of
              None \<Rightarrow> (Inl NullPointer, w1)
            | Some cs \<Rightarrow>
                (Inr (),
                 w1\<lparr>heap := poke_layers (chain net)
                               (neural_train_iteration env cs (elems xf) (elems xl)
                                  (int (shape (read (heap w) f) ! 0)) bs alpha lamb)
                               (heap w1)\<rparr>)))"

text \<open>
  \<^verbatim>\<open>for i in xrange(max_iter)\<close> with \<^verbatim>\<open>alpha *= decay\<close> at the end of the body.
  \<^verbatim>\<open>xrange(max_iter)\<close> is taken as the numbers below \<^verbatim>\<open>max_iter\<close> for every
  integer, none when it is not positive; the limit an interpreter puts on the length of an
  \<^verbatim>\<open>xrange\<close> is not modelled.
  The progress line printed every \<^verbatim>\<open>info\<close> iterations and its clock readings are
  console output and not part of the state.
\<close>

primrec train_loop ::
  "('a, 'r, 'f::times) env \<Rightarrow> NeuralNet \<Rightarrow> aref \<Rightarrow> aref \<Rightarrow> int \<Rightarrow> 'f \<Rightarrow> 'f \<Rightarrow> nat \<Rightarrow> 'f
     \<Rightarrow> ('a, 'r) world \<Rightarrow> (error + unit) \<times> ('a, 'r) world" where
  "train_loop env net f l bs lamb decay 0 alpha w = (Inr (), w)"
| "train_loop env net f l bs lamb decay (Suc k) alpha w =
     (case train_epoch env net f l bs alpha lamb w of
        (Inl e, w1) \<Rightarrow> (Inl e, w1)
      | (Inr u, w1) \<Rightarrow> train_loop env net f l bs lamb decay k (alpha * decay) w1)"

text \<open>What \<^verbatim>\<open>train\<close> does before its loop: the assertions, then the buffers.\<close>

definition train_prepare ::
  "('a, 'r, 'f) env \<Rightarrow> NeuralNet \<Rightarrow> aref \<Rightarrow> aref \<Rightarrow> int \<Rightarrow> ('a, 'r) world
     \<Rightarrow> (error + unit) \<times> NeuralNet \<times> ('a, 'r) world" where
  "train_prepare env net f l bs w =
     (case train_check net (read (heap w) f) (read (heap w) l) bs of
        Some e \<Rightarrow> (Inl e, net, w)
      | None \<Rightarrow>
          if bs \<noteq> batch_size net then NeuralNet_set_batch env net bs w
          else (Inr (), net, w))"

definition train ::
  "('a, 'r, 'f::times) env \<Rightarrow> NeuralNet \<Rightarrow> aref \<Rightarrow> aref \<Rightarrow> int \<Rightarrow> int \<Rightarrow> 'f \<Rightarrow> 'f \<Rightarrow> 'f
     \<Rightarrow> ('a, 'r) world \<Rightarrow> (error + unit) \<times> NeuralNet \<times> ('a, 'r) world" where
  "train env net f l max_iter bs alpha lamb decay w =
     (case train_prepare env net f l bs w of
        (Inl e, net1, w1) \<Rightarrow> (Inl e, net1, w1)
      | (Inr u, net1, w1) \<Rightarrow>
          (case train_loop env net1 f l bs lamb decay (nat max_iter) alpha w1 of
             (r, w2) \<Rightarrow> (r, net1, w2)))"

subsection \<open>\<^verbatim>\<open>predict_prob\<close> and \<^verbatim>\<open>predict_label\<close>\<close>

text \<open>
  \<^verbatim>\<open>predict_prob\<close>: the assertion on the number of columns, the float32 copy of the
  features, the matrix of zeros for the predictions (\<^verbatim>\<open>np.zeros\<close> raises
  \<^verbatim>\<open>ValueError\<close> on a negative dimension), and the call of the C routine, whose
  \<^verbatim>\<open>int n_samples\<close> is the row count as in \<^verbatim>\<open>train\<close>. The copy and a matrix
  that is not returned are locals and not objects of the store.
\<close>

definition predict_prob ::
  "('a, 'r, 'f) env \<Rightarrow> NeuralNet \<Rightarrow> aref \<Rightarrow> ('a, 'r) world \<Rightarrow> (error + addr) \<times> ('a, 'r) world" where
  "predict_prob env net f w =
     (if length (shape (read (heap w) f)) < 2 then (Inl IndexError, w)
      else if int (shape (read (heap w) f) ! 1) \<noteq> n_features net then (Inl AssertionError, w)
      else if n_labels net < 0 then (Inl ValueError, w)
      else if \<not> c_int_ok (int (shape (read (heap w) f) ! 0)) then (Inl OverflowError, w)
      else
        (case c_chain (heap w) (chain net) of
           None \<Rightarrow> (Inl NullPointer, w)
         | Some cs \<Rightarrow>
             let (outs, ps) = neural_predict_prob env cs (elems (copy_f32 env (read (heap w) f)))
                                (int (shape (read (heap w) f) ! 0)) (batch_size net);
                 z = np_zeros env [shape (read (heap w) f) ! 0, nat (n_labels net)]
             in case alloc (z\<lparr>elems := fit (elems z) ps\<rparr>)
                       (w\<lparr>heap := poke_scratch (chain net) outs (heap w)\<rparr>) of
                  (p, w1) \<Rightarrow> (Inr p, w1)))"

text \<open>
  \<^verbatim>\<open>np.argmax(preds, axis=1)\<close>: numpy keeps the first position whose entry is not
  \<open>\<le>\<close> the running maximum. The elements are taken from a linear order here, so a
  NaN, which compares with nothing, is outside the model. An axis of length 0 raises
  \<^verbatim>\<open>ValueError\<close>.
\<close>

fun argmax_from :: "'a::linorder \<Rightarrow> nat \<Rightarrow> nat \<Rightarrow> 'a list \<Rightarrow> nat" where
  "argmax_from mp mi i [] = mi"
| "argmax_from mp mi i (x # xs) =
     (if \<not> x \<le> mp then argmax_from x i (Suc i) xs else argmax_from mp mi (Suc i) xs)"

definition argmax_row :: "'a::linorder list \<Rightarrow> nat" where
  "argmax_row r = (case r of [] \<Rightarrow> 0 | x # xs \<Rightarrow> argmax_from x 0 1 xs)"

definition np_argmax_axis1 :: "'a::linorder ndarray \<Rightarrow> nat list" where
  "np_argmax_axis1 p = map (\<lambda>i. argmax_row (row p i)) [0..<shape p ! 0]"

definition predict_label ::
  "('a::linorder, 'r, 'f) env \<Rightarrow> NeuralNet \<Rightarrow> aref \<Rightarrow> ('a, 'r) world
     \<Rightarrow> (error + nat list) \<times> ('a, 'r) world" where
  "predict_label env net f w =
     (case predict_prob env net f w of
        (Inl e, w1) \<Rightarrow> (Inl e, w1)
      | (Inr p, w1) \<Rightarrow>
          if shape (heap w1 ! p) ! 1 = 0 then (Inl ValueError, w1)
          else (Inr (np_argmax_axis1 (heap w1 ! p)), w1))"

subsection \<open>\<^verbatim>\<open>dumps\<close> and \<^verbatim>\<open>loads\<close>\<close>

text \<open>
  The dictionary \<^verbatim>\<open>desc\<close> as pickle sees it: the list of layer sizes and the values of
  the arrays of \<^verbatim>\<open>get_params()\<close>. \<^verbatim>\<open>pickle.dumps\<close> and \<^verbatim>\<open>pickle.loads\<close> are
  library functions and parameters here; unpickling makes new array objects.
\<close>

record 'a desc =
  desc_layers :: "int list"
  desc_params :: "('a ndarray \<times> 'a ndarray) list"

definition dumps :: "('a desc \<Rightarrow> 's) \<Rightarrow> NeuralNet \<Rightarrow> ('a, 'r) world \<Rightarrow> 's" where
  "dumps pickle_dumps net w =
     pickle_dumps \<lparr>desc_layers = layers net,
                   desc_params =
                     map (\<lambda>(b, t). (read (heap w) b, read (heap w) t)) (NeuralNet_get_params net)\<rparr>"

fun alloc_params ::
  "('a ndarray \<times> 'a ndarray) list \<Rightarrow> ('a, 'r) world \<Rightarrow> (aref \<times> aref) list \<times> ('a, 'r) world" where
  "alloc_params [] w = ([], w)"
| "alloc_params ((xb, xt) # ps) w =
     (case alloc xb w of
        (b, w1) \<Rightarrow>
          (case alloc xt w1 of
             (t, w2) \<Rightarrow> (case alloc_params ps w2 of (qs, w3) \<Rightarrow> ((Whole b, Whole t) # qs, w3))))"

definition loads ::
  "('a, 'r, 'f) env \<Rightarrow> ('s \<Rightarrow> 'a desc option) \<Rightarrow> 's \<Rightarrow> ('a, 'r) world
     \<Rightarrow> (error + NeuralNet) \<times> ('a, 'r) world" where
  "loads env pickle_loads string w =
     (case pickle_loads string of
        None \<Rightarrow> (Inl UnpicklingError, w)
      | Some d \<Rightarrow>
          (case alloc_params (desc_params d) w of
             (ps, w1) \<Rightarrow>
               (case NeuralNet_init env (desc_layers d) w1 of
                  (Inl e, w2) \<Rightarrow> (Inl e, w2)
                | (Inr net, w2) \<Rightarrow>
                    (case NeuralNet_set_params env net ps w2 of
                       (Inl e, net1, w3) \<Rightarrow> (Inl e, w3)
                     | (Inr u, net1, w3) \<Rightarrow> (Inr net1, w3)))))"

section \<open>Well-formed networks\<close>

text \<open>
  The addresses of the \<^verbatim>\<open>act\<close> and \<^verbatim>\<open>delta\<close> buffers of a chain. No method
  returns them, so a caller never holds one.
\<close>

definition scratch_addrs :: "NetLayer list \<Rightarrow> addr list" where
  "scratch_addrs ch =
     concat (map (\<lambda>l. (case act l of None \<Rightarrow> [] | Some a \<Rightarrow> [a]) @
                       (case delta l of None \<Rightarrow> [] | Some d \<Rightarrow> [d])) ch)"

definition param_addrs :: "NetLayer list \<Rightarrow> addr list" where
  "param_addrs ch = concat (map (\<lambda>l. [bias l, theta l]) ch)"

text \<open>
  The layer sizes the constructor accepts: at least two, each a non-negative C integer.
\<close>

definition valid_layers :: "int list \<Rightarrow> bool" where
  "valid_layers ls \<longleftrightarrow> 2 \<le> length ls \<and> list_all (\<lambda>n. 0 \<le> n \<and> n < 2 ^ 31) ls"

text \<open>
  A layer whose parameter arrays are in the store, are float32 and have the element counts
  the constructor gives them.
\<close>

definition layer_sized :: "'a ndarray list \<Rightarrow> NetLayer \<Rightarrow> bool" where
  "layer_sized h l \<longleftrightarrow>
     bias l < length h \<and> theta l < length h \<and>
     dtype (h ! bias l) = Float32 \<and> dtype (h ! theta l) = Float32 \<and>
     int (np_size (h ! bias l)) = out_nodes l \<and>
     int (np_size (h ! theta l)) = out_nodes l * in_nodes l \<and>
     length (elems (h ! bias l)) = np_size (h ! bias l) \<and>
     length (elems (h ! theta l)) = np_size (h ! theta l)"

text \<open>
  The state every method leaves a network in: the chain is not empty, the parameter
  arrays are float32 arrays of the store, the buffers are allocated, and no parameter
  array is a buffer.
\<close>

definition net_ok :: "'a ndarray list \<Rightarrow> NeuralNet \<Rightarrow> bool" where
  "net_ok h net \<longleftrightarrow>
     chain net \<noteq> [] \<and>
     list_all (\<lambda>l. bias l < length h \<and> theta l < length h \<and>
                    dtype (h ! bias l) = Float32 \<and> dtype (h ! theta l) = Float32 \<and>
                    bias l \<notin> set (scratch_addrs (chain net)) \<and>
                    theta l \<notin> set (scratch_addrs (chain net)) \<and>
                    (case act l of None \<Rightarrow> False | Some a \<Rightarrow> a < length h) \<and>
                    (case delta l of None \<Rightarrow> False | Some d \<Rightarrow> d < length h))
       (chain net)"

text \<open>
  The index of the maximum of a row, the first one where it occurs more than once.
\<close>

definition is_first_argmax :: "'a::linorder list \<Rightarrow> nat \<Rightarrow> bool" where
  "is_first_argmax r j \<longleftrightarrow>
     j < length r \<and> list_all (\<lambda>x. x \<le> r ! j) r \<and> list_all (\<lambda>x. x < r ! j) (take j r)"

text \<open>
  The value a call of \<^verbatim>\<open>predict_prob\<close> returns (the matrix, or the error), and the
  values a sequence of calls returns, one after the other on the same network.
\<close>

definition result_value :: "(error + addr) \<times> ('a, 'r) world \<Rightarrow> error + 'a ndarray" where
  "result_value rw = (case rw of (Inl e, w1) \<Rightarrow> Inl e | (Inr p, w1) \<Rightarrow> Inr (heap w1 ! p))"

fun predict_seq ::
  "('a, 'r, 'f) env \<Rightarrow> NeuralNet \<Rightarrow> aref list \<Rightarrow> ('a, 'r) world \<Rightarrow> (error + 'a ndarray) list" where
  "predict_seq env net [] w = []"
| "predict_seq env net (f # fs) w =
     result_value (predict_prob env net f w) #
     predict_seq env net fs (snd (predict_prob env net f w))"

text \<open>
  Two states of a network that no call of \<^verbatim>\<open>predict_prob\<close> tells apart: the stores
  agree below an address \<open>n\<close>, the buffers are the same arrays below \<open>n\<close>, and the
  parameter arrays, wherever they are, hold the same values and are not buffers.
\<close>

definition agree :: "nat \<Rightarrow> 'a ndarray list \<Rightarrow> 'a ndarray list \<Rightarrow> bool" where
  "agree n h h1 \<longleftrightarrow> n \<le> length h \<and> n \<le> length h1 \<and> (\<forall>a<n. h1 ! a = h ! a)"

definition same_layer ::
  "addr set \<Rightarrow> 'a ndarray list \<Rightarrow> 'a ndarray list \<Rightarrow> NetLayer \<Rightarrow> NetLayer \<Rightarrow> bool" where
  "same_layer S h h1 l l1 \<longleftrightarrow>
     act l1 = act l \<and> delta l1 = delta l \<and>
     in_nodes l1 = in_nodes l \<and> out_nodes l1 = out_nodes l \<and>
     h1 ! bias l1 = h ! bias l \<and> h1 ! theta l1 = h ! theta l \<and>
     bias l < length h \<and> theta l < length h \<and> bias l \<notin> S \<and> theta l \<notin> S \<and>
     bias l1 < length h1 \<and> theta l1 < length h1 \<and> bias l1 \<notin> S \<and> theta l1 \<notin> S"

definition sim :: "nat \<Rightarrow> 'a ndarray list \<Rightarrow> NeuralNet \<Rightarrow> 'a ndarray list \<Rightarrow> NeuralNet \<Rightarrow> bool" where
  "sim n h net h1 net1 \<longleftrightarrow>
     agree n h h1 \<and>
     n_features net1 = n_features net \<and> n_labels net1 = n_labels net \<and>
     batch_size net1 = batch_size net \<and>
     (\<forall>a \<in> set (scratch_addrs (chain net)). a < n) \<and>
     list_all2 (same_layer (set (scratch_addrs (chain net))) h h1) (chain net) (chain net1)"

section \<open>A small concrete instance\<close>

text \<open>
  An instance to evaluate the model on. The elements are integers and the casts are the
  identity. The two C routines are stand-ins: the training routine takes \<^verbatim>\<open>alpha\<close>
  off every weight (a parameter update), and the prediction routine adds the sum of the
  biases to every feature.
\<close>

definition demo_env :: "(int, nat, int) env" where
  "demo_env =
     \<lparr>next_rand = (\<lambda>r. (int r, Suc r)),
      rand_below = (\<lambda>r n. (r, Suc r)),
      affine = (\<lambda>x. x),
      cast32 = (\<lambda>d x. x),
      zero32 = 0,
      neural_train_iteration =
        (\<lambda>cs xf xl n bs alpha lamb.
           map (\<lambda>c. c\<lparr>c_theta := map (\<lambda>x. x - alpha) (c_theta c)\<rparr>) cs),
      neural_predict_prob =
        (\<lambda>cs xf n bs. (map (\<lambda>c. (c_act c, c_delta c)) cs,
                        map (\<lambda>x. x + sum_list (concat (map c_bias cs))) xf))\<rparr>"

text \<open>
  A network of layer sizes \<^verbatim>\<open>[2, 2]\<close> with batch size 2, whose head layer has a
  two-dimensional \<^verbatim>\<open>theta\<close> (as after \<^verbatim>\<open>set_params\<close> with a matrix), and three
  arrays of a caller: features and labels of three rows, and labels of two rows.
\<close>

definition demo_world :: "(int, nat) world" where
  "demo_world =
     \<lparr>heap =
        [\<lparr>dtype = Float32, shape = [2], elems = [1, 2]\<rparr>,
         \<lparr>dtype = Float32, shape = [2, 2], elems = [1, 0, 0, 1]\<rparr>,
         \<lparr>dtype = Float32, shape = [0], elems = []\<rparr>,
         \<lparr>dtype = Float32, shape = [0], elems = []\<rparr>,
         \<lparr>dtype = Float32, shape = [4], elems = [0, 0, 0, 0]\<rparr>,
         \<lparr>dtype = Float32, shape = [4], elems = [0, 0, 0, 0]\<rparr>,
         \<lparr>dtype = Float32, shape = [4], elems = [0, 0, 0, 0]\<rparr>,
         \<lparr>dtype = Float32, shape = [4], elems = [0, 0, 0, 0]\<rparr>,
         \<lparr>dtype = Int64, shape = [3, 2], elems = [1, 0, 0, 1, 1, 1]\<rparr>,
         \<lparr>dtype = Int64, shape = [3, 2], elems = [1, 0, 0, 1, 1, 0]\<rparr>,
         \<lparr>dtype = Int64, shape = [2, 2], elems = [1, 0, 0, 1]\<rparr>],
      rng = 0\<rparr>"

definition demo_net :: NeuralNet where
  "demo_net =
     \<lparr>layers = [2, 2], n_features = 2, n_labels = 2, batch_size = 2,
      chain =
        [\<lparr>bias = 0, theta = 1, act = Some 4, delta = Some 5, in_nodes = 2, out_nodes = 2\<rparr>,
         \<lparr>bias = 2, theta = 3, act = Some 6, delta = Some 7, in_nodes = 2, out_nodes = 0\<rparr>]\<rparr>"

text \<open>
  A layer as \<^verbatim>\<open>NetLayer(3, 2)\<close> makes it, with a flat \<^verbatim>\<open>theta\<close> of six weights.
\<close>

definition flat_layer :: NetLayer where
  "flat_layer = \<lparr>bias = 0, theta = 1, act = None, delta = None, in_nodes = 3, out_nodes = 2\<rparr>"

definition flat_world :: "(int, nat) world" where
  "flat_world =
     \<lparr>heap =
        [\<lparr>dtype = Float32, shape = [2], elems = [1, 2]\<rparr>,
         \<lparr>dtype = Float32, shape = [6], elems = [1, 2, 3, 4, 5, 6]\<rparr>],
      rng = 0\<rparr>"

section \<open>The two C routines, from their description\<close>

text \<open>
  Modelled from the spec: the C source of \<^verbatim>\<open>neural_train_iteration\<close> and
  \<^verbatim>\<open>neural_predict_prob\<close> (\<^verbatim>\<open>neural.c\<close>) is not among the sources of the wrapper. The
  definitions of this section follow the description of the engine: the forward pass
  \<open>next.act = sigmoid (layer.act \<cdot> theta\<^sup>T + bias)\<close> from the head to the layer before
  the tail; the output error \<open>delta_tail = act_tail - labels\<close>; the error of a layer
  \<open>layer.delta = (next.delta \<cdot> theta) \<odot> layer.act \<odot> (1 - layer.act)\<close>, computed with the
  weights as they are before the update; the update
  \<open>theta -= (alpha / batch_size) * (next.delta\<^sup>T \<cdot> layer.act) + alpha * lamb * theta\<close> and
  \<open>bias -= (alpha / batch_size) * column_sum next.delta\<close>; one epoch as the batches of
  \<open>batch_size\<close> consecutive rows, one after the other. Rows that do not fill a last
  batch are left out in training and run as a smaller batch in prediction. The numbers are
  real numbers: the rounding of float32 arithmetic is not modelled. Matrices are lists of
  rows here, and \<open>theta\<close> is read in row-major order, \<open>theta[j][i]\<close> at position
  \<open>j * in_nodes + i\<close>.
\<close>

definition sigmoid :: "real \<Rightarrow> real" where
  "sigmoid x = 1 / (1 + exp (- x))"

definition dot :: "real list \<Rightarrow> real list \<Rightarrow> real" where
  "dot xs ys = sum_list (map (\<lambda>(x, y). x * y) (zip xs ys))"

definition matrix_rows :: "nat \<Rightarrow> nat \<Rightarrow> 'a list \<Rightarrow> 'a list list" where
  "matrix_rows r m xs = map (\<lambda>i. take m (drop (i * m) xs)) [0..<r]"

definition layer_forward :: "real neural_net_layer \<Rightarrow> real list list \<Rightarrow> real list list" where
  "layer_forward c A =
     map (\<lambda>a. map (\<lambda>j. sigmoid
                    (dot a (take (nat (c_in_nodes c)) (drop (j * nat (c_in_nodes c)) (c_theta c))) +
                     c_bias c ! j))
               [0..<nat (c_out_nodes c)]) A"

text \<open>The activations flowing into each layer of the chain, for one batch.\<close>

fun forward :: "real neural_net_layer list \<Rightarrow> real list list \<Rightarrow> real list list list" where
  "forward [] A = []"
| "forward [c] A = [A]"
| "forward (c # c1 # cs) A = A # forward (c1 # cs) (layer_forward c A)"

definition layer_delta ::
  "real neural_net_layer \<Rightarrow> real list list \<Rightarrow> real list list \<Rightarrow> real list list" where
  "layer_delta c A Dn =
     map (\<lambda>(a, d).
            map (\<lambda>i. sum_list (map (\<lambda>j. d ! j * c_theta c ! (j * nat (c_in_nodes c) + i))
                                   [0..<nat (c_out_nodes c)]) *
                      (a ! i) * (1 - a ! i))
              [0..<nat (c_in_nodes c)])
       (zip A Dn)"

definition layer_update ::
  "real \<Rightarrow> real \<Rightarrow> real \<Rightarrow> real neural_net_layer \<Rightarrow> real list list \<Rightarrow> real list list
     \<Rightarrow> real neural_net_layer" where
  "layer_update alpha lamb bs c A Dn =
     c\<lparr>c_theta :=
         map (\<lambda>k. c_theta c ! k -
                   ((alpha / bs) *
                      sum_list (map (\<lambda>(a, d). d ! (k div nat (c_in_nodes c)) *
                                                a ! (k mod nat (c_in_nodes c)))
                                  (zip A Dn)) +
                    alpha * lamb * c_theta c ! k))
           [0..<nat (c_out_nodes c) * nat (c_in_nodes c)],
       c_bias :=
         map (\<lambda>j. c_bias c ! j - (alpha / bs) * sum_list (map (\<lambda>d. d ! j) Dn))
           [0..<nat (c_out_nodes c)]\<rparr>"

text \<open>
  The backward pass over a chain and the activations of its layers: the new layers, and
  the error at the input of the first of them.
\<close>

fun backward ::
  "real \<Rightarrow> real \<Rightarrow> real \<Rightarrow> real neural_net_layer list \<Rightarrow> real list list list
     \<Rightarrow> real list list \<Rightarrow> real neural_net_layer list \<times> real list list" where
  "backward alpha lamb bs [c] [A] Y =
     (let D = map (\<lambda>(a, y). map (\<lambda>(p, t). p - t) (zip a y)) (zip A Y)
      in ([c\<lparr>c_act := concat A, c_delta := concat D\<rparr>], D))"
| "backward alpha lamb bs (c # c1 # cs) (A # A1 # As) Y =
     (let (cs1, Dn) = backward alpha lamb bs (c1 # cs) (A1 # As) Y;
          D = layer_delta c A Dn
      in ((layer_update alpha lamb bs c A Dn)\<lparr>c_act := concat A, c_delta := concat D\<rparr> # cs1, D))"
| "backward alpha lamb bs cs As Y = (cs, [])"

definition train_batch ::
  "real \<Rightarrow> real \<Rightarrow> nat \<Rightarrow> real neural_net_layer list \<Rightarrow> real list list \<Rightarrow> real list list
     \<Rightarrow> real neural_net_layer list" where
  "train_batch alpha lamb bs cs X Y = fst (backward alpha lamb (real bs) cs (forward cs X) Y)"

definition spec_train_iteration ::
  "real neural_net_layer list \<Rightarrow> real list \<Rightarrow> real list \<Rightarrow> int \<Rightarrow> int \<Rightarrow> real \<Rightarrow> real
     \<Rightarrow> real neural_net_layer list" where
  "spec_train_iteration cs xf xl n bs alpha lamb =
     fold (\<lambda>b cs1.
             train_batch alpha lamb (nat bs) cs1
               (matrix_rows (nat bs) (nat (c_in_nodes (hd cs)))
                  (drop (b * nat bs * nat (c_in_nodes (hd cs))) xf))
               (matrix_rows (nat bs) (nat (c_in_nodes (last cs)))
                  (drop (b * nat bs * nat (c_in_nodes (last cs))) xl)))
       [0..<nat n div nat bs] cs"

definition spec_predict_prob ::
  "real neural_net_layer list \<Rightarrow> real list \<Rightarrow> int \<Rightarrow> int
     \<Rightarrow> (real list \<times> real list) list \<times> real list" where
  "spec_predict_prob cs xf n bs =
     (let acts =
            map (\<lambda>b. forward cs
                        (matrix_rows (min (nat bs) (nat n - b * nat bs)) (nat (c_in_nodes (hd cs)))
                           (drop (b * nat bs * nat (c_in_nodes (hd cs))) xf)))
              [0..<(nat n + nat bs - 1) div nat bs]
      in (if acts = [] then map (\<lambda>c. (c_act c, c_delta c)) cs
          else map (\<lambda>(c, A). (concat A, c_delta c)) (zip cs (last acts)),
          concat (map (\<lambda>acs. concat (last acs)) acts)))"

text \<open>
  The wrapper with this engine behind it. The random generator is a counter, and a cast to
  float32 keeps the number.
\<close>

definition spec_env :: "(real, nat, real) env" where
  "spec_env =
     \<lparr>next_rand = (\<lambda>r. (real (r mod 1000) / 1000, Suc r)),
      rand_below = (\<lambda>r n. (r mod n, Suc r)),
      affine = (\<lambda>x. 0.24 * x - 0.12),
      cast32 = (\<lambda>d x. x),
      zero32 = 0,
      neural_train_iteration = spec_train_iteration,
      neural_predict_prob = spec_predict_prob\<rparr>"

text \<open>
  A network of layer sizes \<^verbatim>\<open>[1, 1]\<close> with batch size 1: one weight, 1, and one bias,
  0, the empty arrays of the tail, and four buffers of one element. The last array is a
  caller's label matrix of one row.
\<close>

definition spec_world :: "(real, nat) world" where
  "spec_world =
     \<lparr>heap =
        [\<lparr>dtype = Float32, shape = [1], elems = [0]\<rparr>,
         \<lparr>dtype = Float32, shape = [1], elems = [1]\<rparr>,
         \<lparr>dtype = Float32, shape = [0], elems = []\<rparr>,
         \<lparr>dtype = Float32, shape = [0], elems = []\<rparr>,
         \<lparr>dtype = Float32, shape = [1], elems = [0]\<rparr>,
         \<lparr>dtype = Float32, shape = [1], elems = [0]\<rparr>,
         \<lparr>dtype = Float32, shape = [1], elems = [0]\<rparr>,
         \<lparr>dtype = Float32, shape = [1], elems = [0]\<rparr>,
         \<lparr>dtype = Float64, shape = [1, 1], elems = [1]\<rparr>],
      rng = 0\<rparr>"

definition spec_net :: NeuralNet where
  "spec_net =
     \<lparr>layers = [1, 1], n_features = 1, n_labels = 1, batch_size = 1,
      chain =
        [\<lparr>bias = 0, theta = 1, act = Some 4, delta = Some 5, in_nodes = 1, out_nodes = 1\<rparr>,
         \<lparr>bias = 2, theta = 3, act = Some 6, delta = Some 7, in_nodes = 1, out_nodes = 0\<rparr>]\<rparr>"

text \<open>
  \<^verbatim>\<open>theta.reshape(1, 1)\<close> for the weight array \<^verbatim>\<open>theta\<close> of the head layer: a new
  array object of shape \<open>(1, 1)\<close> on the same data.
\<close>

definition theta_view :: aref where
  "theta_view = View 1 [1, 1] [0]"

section \<open>Reading through references\<close>

lemma read_cong: "h1 ! base_of x = h ! base_of x \<Longrightarrow> read h1 x = read h x"
  by (cases x) simp_all

lemma read_append: "base_of x < length h \<Longrightarrow> read (h @ xs) x = read h x"
  by (rule read_cong) (simp add: nth_append)

section \<open>The constructor\<close>

lemma length_np_random_rand: "length (fst (np_random_rand env n r)) = n"
  by (induction n arbitrary: r) (auto simp: split_def Let_def)

lemma layer_sized_append: "layer_sized h l \<Longrightarrow> layer_sized (h @ hs) l"
  by (simp add: layer_sized_def nth_append)

lemma NetLayer_init_ok:
  assumes "0 \<le> out" "0 \<le> inn" "inn < 2 ^ 31" "out < 2 ^ 31"
  shows "\<exists>l w1 hs. NetLayer_init env inn out w = (Inr l, w1) \<and> heap w1 = heap w @ hs \<and>
           in_nodes l = inn \<and> out_nodes l = out \<and> act l = None \<and> delta l = None \<and>
           length (heap w) \<le> bias l \<and> length (heap w) \<le> theta l \<and>
           layer_sized (heap w1) l"
proof -
  obtain bs r1 where b: "np_random_rand env (nat out) (rng w) = (bs, r1)"
    by (cases "np_random_rand env (nat out) (rng w)")
  obtain ts r2 where t: "np_random_rand env (nat (out * inn)) r1 = (ts, r2)"
    by (cases "np_random_rand env (nat (out * inn)) r1")
  have lb: "length bs = nat out"
    using length_np_random_rand [of env "nat out" "rng w"] b by simp
  have lt: "length ts = nat (out * inn)"
    using length_np_random_rand [of env "nat (out * inn)" r1] t by simp
  have nn: "\<not> out * inn < 0"
    using assms by (simp add: not_less)
  show ?thesis
    using assms nn b t lb lt
    by (simp add: NetLayer_init_def alloc_def c_int_ok_def layer_sized_def np_size_def
        nth_append)
qed

lemma build_chain_ok:
  assumes "list_all (\<lambda>(i, out). 0 \<le> i \<and> i < 2 ^ 31 \<and> 0 \<le> out \<and> out < 2 ^ 31) ps"
  shows "\<exists>ch w1 hs. build_chain env ps w = (Inr ch, w1) \<and> heap w1 = heap w @ hs \<and>
           map in_nodes ch = map fst ps \<and> map out_nodes ch = map snd ps \<and>
           list_all (\<lambda>l. act l = None \<and> delta l = None) ch \<and>
           list_all (layer_sized (heap w1)) ch"
  using assms
proof (induction ps arbitrary: w)
  case Nil
  show ?case by simp
next
  case (Cons p ps)
  obtain i out where p: "p = (i, out)" by (cases p)
  from Cons.prems p have v: "0 \<le> i" "i < 2 ^ 31" "0 \<le> out" "out < 2 ^ 31"
    and rest: "list_all (\<lambda>(i, out). 0 \<le> i \<and> i < 2 ^ 31 \<and> 0 \<le> out \<and> out < 2 ^ 31) ps"
    by simp_all
  from NetLayer_init_ok [OF v(3) v(1) v(2) v(4), of env w]
  obtain l w1 hs where l: "NetLayer_init env i out w = (Inr l, w1)"
    and h1: "heap w1 = heap w @ hs" and io: "in_nodes l = i" "out_nodes l = out"
    and nb: "act l = None" "delta l = None" and sz: "layer_sized (heap w1) l"
    by blast
  from Cons.IH [OF rest, of w1]
  obtain ch w2 hs2 where c: "build_chain env ps w1 = (Inr ch, w2)"
    and h2: "heap w2 = heap w1 @ hs2"
    and m: "map in_nodes ch = map fst ps" "map out_nodes ch = map snd ps"
    and nbs: "list_all (\<lambda>l. act l = None \<and> delta l = None) ch"
    and szs: "list_all (layer_sized (heap w2)) ch"
    by blast
  have "layer_sized (heap w2) l"
    using sz h2 by (simp add: layer_sized_append)
  then show ?case
    using p l c h1 h2 io nb m nbs szs by simp
qed



lemma in_scratch_addrs:
  "a \<in> set (scratch_addrs ch) \<longleftrightarrow> (\<exists>l\<in>set ch. act l = Some a \<or> delta l = Some a)"
  by (induction ch) (auto simp: scratch_addrs_def split: option.splits)

lemma NetLayer_set_batch_ok:
  assumes "0 \<le> in_nodes l * bs"
  shows "NetLayer_set_batch env l bs w =
           (Inr (), l\<lparr>act := Some (length (heap w)), delta := Some (Suc (length (heap w)))\<rparr>,
            w\<lparr>heap := heap w @ [np_zeros env [nat (in_nodes l * bs)],
                                 np_zeros env [nat (in_nodes l * bs)]]\<rparr>)"
  using assms by (simp add: NetLayer_set_batch_def alloc_def not_less)

lemma set_batch_chain_ok:
  assumes "list_all (\<lambda>l. 0 \<le> in_nodes l) ch" and "0 \<le> bs"
  shows "\<exists>ch1 w1 hs. set_batch_chain env ch bs w = (Inr (), ch1, w1) \<and>
           heap w1 = heap w @ hs \<and> rng w1 = rng w \<and>
           map bias ch1 = map bias ch \<and> map theta ch1 = map theta ch \<and>
           map in_nodes ch1 = map in_nodes ch \<and> map out_nodes ch1 = map out_nodes ch \<and>
           list_all (\<lambda>l. (case act l of None \<Rightarrow> False
                            | Some a \<Rightarrow> length (heap w) \<le> a \<and> a < length (heap w1)) \<and>
                          (case delta l of None \<Rightarrow> False
                            | Some d \<Rightarrow> length (heap w) \<le> d \<and> d < length (heap w1))) ch1"
  using assms(1)
proof (induction ch arbitrary: w)
  case Nil
  show ?case by simp
next
  case (Cons l ls)
  from Cons.prems have nn: "0 \<le> in_nodes l * bs" and rest: "list_all (\<lambda>l. 0 \<le> in_nodes l) ls"
    using assms(2) by simp_all
  let ?w1 = "w\<lparr>heap := heap w @ [np_zeros env [nat (in_nodes l * bs)],
                                 np_zeros env [nat (in_nodes l * bs)]]\<rparr>"
  from Cons.IH [OF rest, of ?w1]
  obtain ch1 w2 hs where c: "set_batch_chain env ls bs ?w1 = (Inr (), ch1, w2)"
    and h: "heap w2 = heap ?w1 @ hs" and r: "rng w2 = rng ?w1"
    and m: "map bias ch1 = map bias ls" "map theta ch1 = map theta ls"
      "map in_nodes ch1 = map in_nodes ls" "map out_nodes ch1 = map out_nodes ls"
    and b: "list_all (\<lambda>l. (case act l of None \<Rightarrow> False
                            | Some a \<Rightarrow> length (heap ?w1) \<le> a \<and> a < length (heap w2)) \<and>
                          (case delta l of None \<Rightarrow> False
                            | Some d \<Rightarrow> length (heap ?w1) \<le> d \<and> d < length (heap w2))) ch1"
    by blast
  have b': "list_all (\<lambda>l. (case act l of None \<Rightarrow> False
                            | Some a \<Rightarrow> length (heap w) \<le> a \<and> a < length (heap w2)) \<and>
                          (case delta l of None \<Rightarrow> False
                            | Some d \<Rightarrow> length (heap w) \<le> d \<and> d < length (heap w2))) ch1"
    using b by (auto simp: list_all_iff split: option.splits)
  show ?case
    using c h r m b' by (simp add: NetLayer_set_batch_ok [OF nn])
qed

lemma NeuralNet_init_ok:
  assumes "valid_layers ls"
  shows "\<exists>net w1 hs. NeuralNet_init env ls w = (Inr net, w1) \<and> heap w1 = heap w @ hs \<and>
           layers net = ls \<and> n_features net = hd ls \<and> n_labels net = last ls \<and>
           batch_size net = 100 \<and>
           map in_nodes (chain net) = ls \<and> map out_nodes (chain net) = tl ls @ [0] \<and>
           list_all (layer_sized (heap w1)) (chain net) \<and> net_ok (heap w1) net"
proof -
  from assms have len: "2 \<le> length ls" and rng: "list_all (\<lambda>n. 0 \<le> n \<and> n < 2 ^ 31) ls"
    by (simp_all add: valid_layers_def)
  from len have ne: "ls \<noteq> []" by auto
  have hl: "c_int_ok (hd ls)" "c_int_ok (last ls)"
    using rng ne by (auto simp: list_all_iff c_int_ok_def intro: order_trans [of _ 0])
  have pairs: "list_all (\<lambda>(i, out). 0 \<le> i \<and> i < 2 ^ 31 \<and> 0 \<le> out \<and> out < 2 ^ 31)
                 (zip ls (tl ls @ [0]))"
  proof -
    have "0 \<le> i \<and> i < 2 ^ 31 \<and> 0 \<le> out \<and> out < 2 ^ 31"
      if "(i, out) \<in> set (zip ls (tl ls @ [0]))" for i out
    proof -
      from that have i: "i \<in> set ls" and o: "out \<in> set (tl ls @ [0])"
        by (auto dest: set_zip_leftD set_zip_rightD)
      from o have "out \<in> set ls \<or> out = 0"
        using ne by (auto dest: list.set_sel(2))
      then show ?thesis
        using i rng by (auto simp: list_all_iff)
    qed
    then show ?thesis
      by (auto simp: list_all_iff)
  qed
  have lz: "length (tl ls @ [0::int]) = length ls"
    using ne by simp
  from build_chain_ok [OF pairs, of env w]
  obtain ch w1 hs where c: "build_chain env (zip ls (tl ls @ [0])) w = (Inr ch, w1)"
    and h1: "heap w1 = heap w @ hs"
    and m: "map in_nodes ch = ls" "map out_nodes ch = tl ls @ [0]"
    and sz: "list_all (layer_sized (heap w1)) ch"
    using lz by (auto simp del: length_append length_tl)
  have nn: "list_all (\<lambda>l. 0 \<le> in_nodes l) ch"
    using rng m(1) by (auto simp: list_all_iff) 
  from set_batch_chain_ok [OF nn, of 100 env w1]
  obtain ch1 w2 hs2 where s: "set_batch_chain env ch 100 w1 = (Inr (), ch1, w2)"
    and h2: "heap w2 = heap w1 @ hs2"
    and m2: "map bias ch1 = map bias ch" "map theta ch1 = map theta ch"
      "map in_nodes ch1 = map in_nodes ch" "map out_nodes ch1 = map out_nodes ch"
    and b: "list_all (\<lambda>l. (case act l of None \<Rightarrow> False
                            | Some a \<Rightarrow> length (heap w1) \<le> a \<and> a < length (heap w2)) \<and>
                          (case delta l of None \<Rightarrow> False
                            | Some d \<Rightarrow> length (heap w1) \<le> d \<and> d < length (heap w2))) ch1"
    by auto
  have len1: "length ch1 = length ch" "length ch = length ls"
    using m2(1) m(1) by (metis length_map)+
  have sz1: "list_all (layer_sized (heap w2)) ch1"
    unfolding list_all_length
  proof (intro allI impI)
    fix k assume k: "k < length ch1"
    then have "layer_sized (heap w1) (ch ! k)"
      using sz len1 by (simp add: list_all_length)
    then have "layer_sized (heap w2) (ch ! k)"
      using h2 by (simp add: layer_sized_append)
    moreover have "bias (ch1 ! k) = bias (ch ! k)" "theta (ch1 ! k) = theta (ch ! k)"
      "in_nodes (ch1 ! k) = in_nodes (ch ! k)" "out_nodes (ch1 ! k) = out_nodes (ch ! k)"
      using m2 k len1 by (metis nth_map)+
    ultimately show "layer_sized (heap w2) (ch1 ! k)"
      by (simp add: layer_sized_def)
  qed
  have ok: "net_ok (heap w2) \<lparr>layers = ls, n_features = hd ls, n_labels = last ls,
                               batch_size = 100, chain = ch1\<rparr>"
  proof -
    have ne1: "ch1 \<noteq> []" using len1 ne by auto
    have "\<And>l. l \<in> set ch1 \<Longrightarrow> bias l < length (heap w1) \<and> theta l < length (heap w1)"
    proof -
      fix l assume "l \<in> set ch1"
      then obtain k where k: "k < length ch1" "l = ch1 ! k" by (auto simp: in_set_conv_nth)
      then have "layer_sized (heap w1) (ch ! k)"
        using sz len1 by (simp add: list_all_length)
      moreover have "bias (ch1 ! k) = bias (ch ! k)" "theta (ch1 ! k) = theta (ch ! k)"
        using m2 k len1 by (metis nth_map)+
      ultimately show "bias l < length (heap w1) \<and> theta l < length (heap w1)"
        using k by (simp add: layer_sized_def)
    qed
    moreover have "\<And>a. a \<in> set (scratch_addrs ch1) \<Longrightarrow> length (heap w1) \<le> a"
      using b by (auto simp: in_scratch_addrs list_all_iff split: option.splits)
    ultimately have "\<And>l. l \<in> set ch1 \<Longrightarrow>
        bias l \<notin> set (scratch_addrs ch1) \<and> theta l \<notin> set (scratch_addrs ch1)"
      by (meson leD)
    then show ?thesis
      using ne1 sz1 b
      by (auto simp: net_ok_def list_all_iff layer_sized_def split: option.splits)
  qed
  show ?thesis
    using len hl c s h1 h2 m m2 sz1 ok
    by (simp add: NeuralNet_init_def random_init_def NeuralNet_set_batch_def c_int_ok_def)
qed

text \<open>
  Claim C8. For valid layer sizes the constructor returns a network, and
  \<^verbatim>\<open>get_params\<close> of it is one \<open>(bias, theta)\<close> pair for each entry of the list of
  layer sizes, in the order of the chain: the layer of pair \<open>k\<close> has \<open>layers[k]\<close>
  inputs; its outputs are \<open>layers[k + 1]\<close>, and 0 for the last. The two arrays of the
  last pair have no elements.
\<close>

theorem get_params_one_pair_per_layer:
  assumes "valid_layers ls"
  shows "\<exists>net w1. NeuralNet_init env ls w = (Inr net, w1) \<and>
           length (NeuralNet_get_params net) = length ls \<and>
           NeuralNet_get_params net = map (\<lambda>l. (Whole (bias l), Whole (theta l))) (chain net) \<and>
           map in_nodes (chain net) = ls \<and> map out_nodes (chain net) = tl ls @ [0] \<and>
           (case last (NeuralNet_get_params net) of
              (b, t) \<Rightarrow> np_size (read (heap w1) b) = 0 \<and> elems (read (heap w1) b) = [] \<and>
                        np_size (read (heap w1) t) = 0 \<and> elems (read (heap w1) t) = [])"
proof -
  from NeuralNet_init_ok [OF assms, of env w]
  obtain net w1 where i: "NeuralNet_init env ls w = (Inr net, w1)"
    and m: "map in_nodes (chain net) = ls" "map out_nodes (chain net) = tl ls @ [0]"
    and sz: "list_all (layer_sized (heap w1)) (chain net)"
    by blast
  from assms have ne: "ls \<noteq> []" by (auto simp: valid_layers_def)
  have len: "length (chain net) = length ls"
    using m(1) by (metis length_map)
  then have cne: "chain net \<noteq> []" using ne by auto
  have "out_nodes (last (chain net)) = last (tl ls @ [0])"
    using m(2) cne by (metis last_map)
  then have out0: "out_nodes (last (chain net)) = 0" by simp
  have "layer_sized (heap w1) (last (chain net))"
    using sz cne by (simp add: list_all_iff)
  with out0 have tail:
    "np_size (heap w1 ! bias (last (chain net))) = 0"
    "elems (heap w1 ! bias (last (chain net))) = []"
    "np_size (heap w1 ! theta (last (chain net))) = 0"
    "elems (heap w1 ! theta (last (chain net))) = []"
    by (auto simp: layer_sized_def)
  have gp: "NeuralNet_get_params net = map (\<lambda>l. (Whole (bias l), Whole (theta l))) (chain net)"
    by (simp add: NeuralNet_get_params_def NetLayer_get_params_def fun_eq_iff)
  have "last (NeuralNet_get_params net) =
          (Whole (bias (last (chain net))), Whole (theta (last (chain net))))"
    unfolding gp using cne by (simp add: last_map)
  then show ?thesis
    using i m len gp tail by simp
qed

theorem get_params_one_pair_per_layer_witness:
  "valid_layers [3, 2] \<and>
   (\<exists>net w1. NeuralNet_init demo_env [3, 2] demo_world = (Inr net, w1) \<and>
      length (NeuralNet_get_params net) = length [3, 2 :: int] \<and>
      NeuralNet_get_params net = map (\<lambda>l. (Whole (bias l), Whole (theta l))) (chain net) \<and>
      map in_nodes (chain net) = [3, 2] \<and> map out_nodes (chain net) = tl [3, 2] @ [0] \<and>
      (case last (NeuralNet_get_params net) of
         (b, t) \<Rightarrow> np_size (read (heap w1) b) = 0 \<and> elems (read (heap w1) b) = [] \<and>
                   np_size (read (heap w1) t) = 0 \<and> elems (read (heap w1) t) = []))"
proof -
  have v: "valid_layers [3, 2]" by (simp add: valid_layers_def)
  show ?thesis
    using v get_params_one_pair_per_layer [OF v, of demo_env demo_world] by blast
qed

section \<open>\<^verbatim>\<open>NetLayer.set_params\<close>\<close>

lemma c_int_mul_exact: "c_int_ok (a * b) \<Longrightarrow> c_int_mul a b = a * b"
  by (simp add: c_int_ok_def c_int_mul_def)

lemma NetLayer_set_params_unfold:
  "NetLayer_set_params env l b t w =
     (if int (np_size (read (heap w) b)) = out_nodes l \<and>
         int (np_size (read (heap w) t)) = c_int_mul (out_nodes l) (in_nodes l)
      then (Inr (),
            l\<lparr>bias := length (heap w), theta := Suc (length (heap w))\<rparr>,
            w\<lparr>heap := heap w @ [copy_f32 env (read (heap w) b), copy_f32 env (read (heap w) t)]\<rparr>)
      else (Inl AssertionError, l, w))"
  by (simp add: NetLayer_set_params_def alloc_def)

text \<open>
  Claim C7, as the code has it by design. For a layer whose weight count
  \<^verbatim>\<open>out_nodes * in_nodes\<close> fits a C integer, \<^verbatim>\<open>set_params\<close> compares element
  counts, not shapes. When \<^verbatim>\<open>np.size(bias)\<close> is not \<^verbatim>\<open>out_nodes\<close> or
  \<^verbatim>\<open>np.size(theta)\<close> is not \<^verbatim>\<open>out_nodes * in_nodes\<close> it fails with an
  \<^verbatim>\<open>AssertionError\<close> and the layer and the store are as they were. When both counts
  agree it succeeds: the layer's \<^verbatim>\<open>bias\<close> and \<^verbatim>\<open>theta\<close> are two new arrays of the
  store, of dtype float32, with the shapes of the arrays supplied and their elements (cast
  when the dtype supplied is not float32); every array that was in the store is as it was,
  and the rest of the layer is unchanged. (What happens when the product does not fit a C
  integer is left out here.)
\<close>

theorem NetLayer_set_params_size_check:
  assumes "c_int_ok (out_nodes l * in_nodes l)"
  shows "(int (np_size (read (heap w) b)) \<noteq> out_nodes l \<or>
          int (np_size (read (heap w) t)) \<noteq> out_nodes l * in_nodes l \<longrightarrow>
            NetLayer_set_params env l b t w = (Inl AssertionError, l, w)) \<and>
         (int (np_size (read (heap w) b)) = out_nodes l \<and>
          int (np_size (read (heap w) t)) = out_nodes l * in_nodes l \<longrightarrow>
            (\<exists>l1 w1. NetLayer_set_params env l b t w = (Inr (), l1, w1) \<and>
               act l1 = act l \<and> delta l1 = delta l \<and>
               in_nodes l1 = in_nodes l \<and> out_nodes l1 = out_nodes l \<and>
               length (heap w) \<le> bias l1 \<and> bias l1 < length (heap w1) \<and>
               length (heap w) \<le> theta l1 \<and> theta l1 < length (heap w1) \<and>
               bias l1 \<noteq> theta l1 \<and>
               (\<forall>a < length (heap w). heap w1 ! a = heap w ! a) \<and>
               dtype (heap w1 ! bias l1) = Float32 \<and>
               shape (heap w1 ! bias l1) = shape (read (heap w) b) \<and>
               elems (heap w1 ! bias l1) =
                 (if dtype (read (heap w) b) = Float32 then elems (read (heap w) b)
                  else map (cast32 env (dtype (read (heap w) b))) (elems (read (heap w) b))) \<and>
               dtype (heap w1 ! theta l1) = Float32 \<and>
               shape (heap w1 ! theta l1) = shape (read (heap w) t) \<and>
               elems (heap w1 ! theta l1) =
                 (if dtype (read (heap w) t) = Float32 then elems (read (heap w) t)
                  else map (cast32 env (dtype (read (heap w) t))) (elems (read (heap w) t)))))"
proof -
  have m: "c_int_mul (out_nodes l) (in_nodes l) = out_nodes l * in_nodes l"
    using assms by (rule c_int_mul_exact)
  show ?thesis
    unfolding NetLayer_set_params_unfold m
    by (auto simp: nth_append copy_f32_def)
qed

theorem NetLayer_set_params_size_check_witness:
  "c_int_ok (out_nodes flat_layer * in_nodes flat_layer) \<and>
   int (np_size (read (heap flat_world) (Whole 0))) = out_nodes flat_layer \<and>
   int (np_size (read (heap flat_world) (Whole 1))) = out_nodes flat_layer * in_nodes flat_layer \<and>
   (\<exists>l1 w1. NetLayer_set_params demo_env flat_layer (Whole 0) (Whole 1) flat_world = (Inr (), l1, w1) \<and>
      act l1 = act flat_layer \<and> delta l1 = delta flat_layer \<and>
      in_nodes l1 = in_nodes flat_layer \<and> out_nodes l1 = out_nodes flat_layer \<and>
      length (heap flat_world) \<le> bias l1 \<and> bias l1 < length (heap w1) \<and>
      length (heap flat_world) \<le> theta l1 \<and> theta l1 < length (heap w1) \<and>
      bias l1 \<noteq> theta l1 \<and>
      (\<forall>a < length (heap flat_world). heap w1 ! a = heap flat_world ! a) \<and>
      dtype (heap w1 ! bias l1) = Float32 \<and> shape (heap w1 ! bias l1) = [2] \<and>
      elems (heap w1 ! bias l1) = [1, 2] \<and>
      dtype (heap w1 ! theta l1) = Float32 \<and> shape (heap w1 ! theta l1) = [6] \<and>
      elems (heap w1 ! theta l1) = [1, 2, 3, 4, 5, 6]) \<and>
   int (np_size (read (heap flat_world) (Whole 1))) \<noteq> out_nodes flat_layer \<and>
   NetLayer_set_params demo_env flat_layer (Whole 1) (Whole 1) flat_world =
     (Inl AssertionError, flat_layer, flat_world)"
proof -
  have a: "c_int_ok (out_nodes flat_layer * in_nodes flat_layer)"
    by (simp add: flat_layer_def c_int_ok_def)
  have b: "int (np_size (read (heap flat_world) (Whole 0))) = out_nodes flat_layer"
    by (simp add: flat_world_def flat_layer_def np_size_def)
  have c: "int (np_size (read (heap flat_world) (Whole 1))) = out_nodes flat_layer * in_nodes flat_layer"
    by (simp add: flat_world_def flat_layer_def np_size_def)
  have d: "read (heap flat_world) (Whole 0) = \<lparr>dtype = Float32, shape = [2], elems = [1, 2]\<rparr>"
    "read (heap flat_world) (Whole 1) =
       \<lparr>dtype = Float32, shape = [6], elems = [1, 2, 3, 4, 5, 6]\<rparr>"
    by (simp_all add: flat_world_def)
  from NetLayer_set_params_size_check [OF a, of flat_world "Whole 0" "Whole 1" demo_env] b c
  have "\<exists>l1 w1. NetLayer_set_params demo_env flat_layer (Whole 0) (Whole 1) flat_world = (Inr (), l1, w1) \<and>
      act l1 = act flat_layer \<and> delta l1 = delta flat_layer \<and>
      in_nodes l1 = in_nodes flat_layer \<and> out_nodes l1 = out_nodes flat_layer \<and>
      length (heap flat_world) \<le> bias l1 \<and> bias l1 < length (heap w1) \<and>
      length (heap flat_world) \<le> theta l1 \<and> theta l1 < length (heap w1) \<and>
      bias l1 \<noteq> theta l1 \<and>
      (\<forall>a < length (heap flat_world). heap w1 ! a = heap flat_world ! a) \<and>
      dtype (heap w1 ! bias l1) = Float32 \<and> shape (heap w1 ! bias l1) = [2] \<and>
      elems (heap w1 ! bias l1) = [1, 2] \<and>
      dtype (heap w1 ! theta l1) = Float32 \<and> shape (heap w1 ! theta l1) = [6] \<and>
      elems (heap w1 ! theta l1) = [1, 2, 3, 4, 5, 6]"
    unfolding d by simp
  moreover have e: "int (np_size (read (heap flat_world) (Whole 1))) \<noteq> out_nodes flat_layer"
    by (simp add: flat_world_def flat_layer_def np_size_def)
  moreover have "NetLayer_set_params demo_env flat_layer (Whole 1) (Whole 1) flat_world =
     (Inl AssertionError, flat_layer, flat_world)"
    using NetLayer_set_params_size_check [OF a, of flat_world "Whole 1" "Whole 1" demo_env] e
    by blast
  ultimately show ?thesis
    using a b c by blast
qed

text \<open>
  Claim C7 as stated fails: a flat \<^verbatim>\<open>theta\<close> of six weights is not of shape
  \<open>(out_nodes, in_nodes) = (2, 3)\<close>, and the layer accepts it. It is the shape
  \<^verbatim>\<open>NetLayer.__init__\<close> itself gives \<^verbatim>\<open>theta\<close>.
\<close>

theorem NetLayer_set_params_flat_theta_accepted:
  "shape (read (heap flat_world) (Whole 1)) \<noteq>
     [nat (out_nodes flat_layer), nat (in_nodes flat_layer)] \<and>
   fst (NetLayer_set_params demo_env flat_layer (Whole 0) (Whole 1) flat_world) = Inr ()"
  by (simp add: flat_world_def flat_layer_def NetLayer_set_params_def np_size_def
      c_int_mul_def alloc_def)

section \<open>The assertions of \<^verbatim>\<open>train\<close>\<close>

text \<open>
  Claim C5. When features and labels are matrices whose row counts differ, or the column
  count of the features is not \<^verbatim>\<open>n_features\<close>, or the column count of the labels is not
  \<^verbatim>\<open>n_labels\<close>, \<^verbatim>\<open>train\<close> fails with an \<^verbatim>\<open>AssertionError\<close>, and the network and
  the store (parameters and buffers) are what they were before the call.
\<close>

theorem train_shape_mismatch:
  assumes "2 \<le> length (shape (read (heap w) f))" and "2 \<le> length (shape (read (heap w) l))"
    and "shape (read (heap w) f) ! 0 \<noteq> shape (read (heap w) l) ! 0
         \<or> int (shape (read (heap w) f) ! 1) \<noteq> n_features net
         \<or> int (shape (read (heap w) l) ! 1) \<noteq> n_labels net"
  shows "train env net f l max_iter bs alpha lamb decay w = (Inl AssertionError, net, w)"
  using assms by (auto simp: train_def train_prepare_def train_check_def)

theorem train_shape_mismatch_witness:
  "2 \<le> length (shape (read (heap demo_world) (Whole 8))) \<and> 2 \<le> length (shape (read (heap demo_world) (Whole 10))) \<and>
   shape (read (heap demo_world) (Whole 8)) ! 0 \<noteq> shape (read (heap demo_world) (Whole 10)) ! 0 \<and>
   train demo_env demo_net (Whole 8) (Whole 10) 5 2 1 0 1 demo_world = (Inl AssertionError, demo_net, demo_world)"
proof -
  have a: "2 \<le> length (shape (read (heap demo_world) (Whole 8)))" by (simp add: demo_world_def)
  have b: "2 \<le> length (shape (read (heap demo_world) (Whole 10)))" by (simp add: demo_world_def)
  have c: "shape (read (heap demo_world) (Whole 8)) ! 0 \<noteq> shape (read (heap demo_world) (Whole 10)) ! 0"
    by (simp add: demo_world_def)
  show ?thesis
    using a b c train_shape_mismatch [OF a b disjI1, OF c, of demo_env demo_net 5 2 1 0 1]
    by simp
qed

section \<open>The learning rate\<close>

text \<open>
  The loop, one epoch further: the epoch after \<open>k\<close> completed ones runs under the rate
  the code has then, \<^verbatim>\<open>alpha\<close> multiplied \<open>k\<close> times by \<^verbatim>\<open>decay\<close>, one
  multiplication after the other. This holds for any multiplication, also one that rounds.
\<close>

lemma funpow_times_swap:
  "((\<lambda>a. a * decay) ^^ k) (alpha * decay) = ((\<lambda>a. a * decay) ^^ k) alpha * decay"
  using funpow_swap1 [of "\<lambda>a. a * decay" k alpha] by simp

lemma nat_one_plus_int: "nat (1 + int k) = Suc k"
  by simp

lemma train_loop_snoc:
  "train_loop env net f l bs lamb decay (Suc k) alpha w =
     (case train_loop env net f l bs lamb decay k alpha w of
        (Inl e, w1) \<Rightarrow> (Inl e, w1)
      | (Inr u, w1) \<Rightarrow> train_epoch env net f l bs (((\<lambda>a. a * decay) ^^ k) alpha) lamb w1)"
proof (induction k arbitrary: alpha w)
  case 0
  show ?case
    by (simp split: prod.splits sum.splits)
next
  case (Suc k)
  have "train_loop env net f l bs lamb decay (Suc (Suc k)) alpha w =
          (case train_epoch env net f l bs alpha lamb w of
             (Inl e, w1) \<Rightarrow> (Inl e, w1)
           | (Inr u, w1) \<Rightarrow> train_loop env net f l bs lamb decay (Suc k) (alpha * decay) w1)"
    by simp
  also have "\<dots> =
          (case train_epoch env net f l bs alpha lamb w of
             (Inl e, w1) \<Rightarrow> (Inl e, w1)
           | (Inr u, w1) \<Rightarrow>
               (case train_loop env net f l bs lamb decay k (alpha * decay) w1 of
                  (Inl e, w2) \<Rightarrow> (Inl e, w2)
                | (Inr u, w2) \<Rightarrow>
                    train_epoch env net f l bs (((\<lambda>a. a * decay) ^^ k) (alpha * decay)) lamb w2))"
    by (simp only: Suc.IH)
  also have "\<dots> =
          (case train_loop env net f l bs lamb decay (Suc k) alpha w of
             (Inl e, w1) \<Rightarrow> (Inl e, w1)
           | (Inr u, w1) \<Rightarrow>
               train_epoch env net f l bs (((\<lambda>a. a * decay) ^^ Suc k) alpha) lamb w1)"
    by (simp add: funpow_times_swap split: prod.splits sum.splits)
  finally show ?case .
qed

lemma funpow_times_power:
  fixes alpha decay :: "'f::monoid_mult"
  shows "((\<lambda>a. a * decay) ^^ k) alpha = alpha * decay ^ k"
  by (induction k) (simp_all add: mult.assoc power_commutes)

text \<open>
  Claim C4. \<^verbatim>\<open>train\<close> with no epoch is the assertions and the buffers, without a call
  of the C routine. \<^verbatim>\<open>train\<close> with \<open>k + 1\<close> epochs is \<^verbatim>\<open>train\<close> with \<open>k\<close>
  epochs followed, when those returned, by one more permutation and one more call of
  \<^verbatim>\<open>neural_train_iteration\<close> (unless the row count does not fit the C \<^verbatim>\<open>int\<close>
  of the call, or a layer has no buffers), and the learning rate that call is handed is
  \<open>alpha * decay ^ k\<close>. So epoch \<open>k\<close> (counted from 0) of every run gets exactly
  that rate: the rate is multiplied by \<^verbatim>\<open>decay\<close> once after each call, and the
  mini-batches, which run inside the call, all run under the one rate it was given.

  The rate is an element of any type with an associative multiplication and a unit; for
  Python floats, whose products round, the rate of epoch \<open>k\<close> is the \<open>k\<close>-fold
  product of \<open>train_loop_snoc\<close>. The conversion of the rate to the C \<^verbatim>\<open>float\<close> of the
  call is part of the routine.
\<close>

theorem train_alpha_schedule:
  fixes alpha decay :: "'f::monoid_mult"
  shows "train env net f l 0 bs alpha lamb decay w = train_prepare env net f l bs w \<and>
     train env net f l (int (Suc k)) bs alpha lamb decay w =
     (case train env net f l (int k) bs alpha lamb decay w of
        (Inl e, net1, w1) \<Rightarrow> (Inl e, net1, w1)
      | (Inr u, net1, w1) \<Rightarrow>
          (case np_random_permutation env (shape (read (heap w1) f) ! 0) (rng w1) of
             (idx, r1) \<Rightarrow>
               if \<not> c_int_ok (int (shape (read (heap w1) f) ! 0))
               then (Inl OverflowError, net1, w1\<lparr>rng := r1\<rparr>)
               else
                 (case c_chain (heap w1) (chain net1) of
                    None \<Rightarrow> (Inl NullPointer, net1, w1\<lparr>rng := r1\<rparr>)
                  | Some cs \<Rightarrow>
                      (Inr (), net1,
                       w1\<lparr>rng := r1,
                          heap := poke_layers (chain net1)
                            (neural_train_iteration env cs
                               (elems (copy_f32 env (take_rows (read (heap w1) f) idx)))
                               (elems (copy_f32 env (take_rows (read (heap w1) l) idx)))
                               (int (shape (read (heap w1) f) ! 0)) bs (alpha * decay ^ k) lamb)
                            (heap w1)\<rparr>))))"
proof
  show "train env net f l 0 bs alpha lamb decay w = train_prepare env net f l bs w"
    by (simp add: train_def split: prod.splits sum.splits)
next
  obtain r net1 w1 where p: "train_prepare env net f l bs w = (r, net1, w1)"
    by (cases "train_prepare env net f l bs w")
  show "train env net f l (int (Suc k)) bs alpha lamb decay w =
     (case train env net f l (int k) bs alpha lamb decay w of
        (Inl e, net1, w1) \<Rightarrow> (Inl e, net1, w1)
      | (Inr u, net1, w1) \<Rightarrow>
          (case np_random_permutation env (shape (read (heap w1) f) ! 0) (rng w1) of
             (idx, r1) \<Rightarrow>
               if \<not> c_int_ok (int (shape (read (heap w1) f) ! 0))
               then (Inl OverflowError, net1, w1\<lparr>rng := r1\<rparr>)
               else
                 (case c_chain (heap w1) (chain net1) of
                    None \<Rightarrow> (Inl NullPointer, net1, w1\<lparr>rng := r1\<rparr>)
                  | Some cs \<Rightarrow>
                      (Inr (), net1,
                       w1\<lparr>rng := r1,
                          heap := poke_layers (chain net1)
                            (neural_train_iteration env cs
                               (elems (copy_f32 env (take_rows (read (heap w1) f) idx)))
                               (elems (copy_f32 env (take_rows (read (heap w1) l) idx)))
                               (int (shape (read (heap w1) f) ! 0)) bs (alpha * decay ^ k) lamb)
                            (heap w1)\<rparr>))))"
  proof (cases r)
    case (Inl e)
    then show ?thesis using p by (simp add: train_def)
  next
    case (Inr u)
    obtain r2 w2 where t: "train_loop env net1 f l bs lamb decay k alpha w1 = (r2, w2)"
      by (cases "train_loop env net1 f l bs lamb decay k alpha w1")
    show ?thesis
    proof (cases r2)
      case (Inl e)
      then show ?thesis
        using p Inr t by (simp add: train_def nat_one_plus_int train_loop_snoc del: train_loop.simps)
    next
      case (Inr u2)
      then show ?thesis
        using p \<open>r = Inr u\<close> t
        by (simp add: train_def nat_one_plus_int train_loop_snoc funpow_times_power train_epoch_def Let_def
            del: train_loop.simps split: prod.splits option.splits)
    qed
  qed
qed

section \<open>\<^verbatim>\<open>predict_label\<close>\<close>

lemma argmax_from_spec:
  assumes "mi < length pre" and "pre ! mi = mp" and "list_all (\<lambda>x. x \<le> mp) pre"
    and "list_all (\<lambda>x. x < mp) (take mi pre)"
  shows "is_first_argmax (pre @ xs) (argmax_from mp mi (length pre) xs)"
  using assms
proof (induction xs arbitrary: pre mp mi)
  case Nil
  then show ?case by (simp add: is_first_argmax_def)
next
  case (Cons x xs)
  show ?case
  proof (cases "x \<le> mp")
    case True
    have "is_first_argmax ((pre @ [x]) @ xs) (argmax_from mp mi (length (pre @ [x])) xs)"
      using Cons.prems True by (intro Cons.IH) (simp_all add: nth_append)
    then show ?thesis using True by simp
  next
    case False
    then have lt: "mp < x" by simp
    have "is_first_argmax ((pre @ [x]) @ xs) (argmax_from x (length pre) (length (pre @ [x])) xs)"
    proof (intro Cons.IH)
      show "list_all (\<lambda>y. y \<le> x) (pre @ [x])"
        using Cons.prems(3) lt by (auto simp: list_all_iff)
      show "list_all (\<lambda>y. y < x) (take (length pre) (pre @ [x]))"
        using Cons.prems(3) lt by (auto simp: list_all_iff)
    qed simp_all
    then show ?thesis using False by simp
  qed
qed

lemma argmax_row_spec: "r \<noteq> [] \<Longrightarrow> is_first_argmax r (argmax_row r)"
proof -
  assume "r \<noteq> []"
  then obtain x xs where r: "r = x # xs" by (cases r) auto
  have "is_first_argmax ([x] @ xs) (argmax_from x 0 (length [x]) xs)"
    by (intro argmax_from_spec) simp_all
  then show ?thesis by (simp add: r argmax_row_def)
qed

lemma length_fit: "length (fit old new) = length old"
  by (simp add: fit_def)

lemma predict_prob_result:
  assumes "predict_prob env net f w = (Inr p, w1)"
  shows "p = length (heap w) \<and> p < length (heap w1) \<and>
         shape (heap w1 ! p) = [shape (read (heap w) f) ! 0, nat (n_labels net)] \<and>
         length (elems (heap w1 ! p)) = shape (read (heap w) f) ! 0 * nat (n_labels net)"
proof -
  have len_ps: "length (poke_scratch ch outs h) = length h" for ch outs and h :: "'a ndarray list"
    by (induction ch outs h rule: poke_scratch.induct) (auto simp: poke_def split: option.splits)
  show ?thesis
    using assms
    by (auto simp: predict_prob_def alloc_def np_zeros_def length_fit len_ps nth_append
        split: if_splits option.splits prod.splits)
qed

lemma length_row:
  assumes "shape p = [n, m]" and "length (elems p) = n * m" and "i < n"
  shows "length (row p i) = m"
proof -
  have "i * m + m \<le> n * m"
    using assms(3) by (metis Suc_leI mult_Suc mult_le_mono1 add.commute)
  then show ?thesis
    using assms by (simp add: row_def row_size_def)
qed

text \<open>
  Claim C9. When \<^verbatim>\<open>predict_prob\<close> returns the matrix \<open>p\<close> for a network with at
  least one label, \<^verbatim>\<open>predict_label\<close> on the same input returns a vector with one entry
  for each row of the features, and entry \<open>i\<close> is the index of the maximum of row
  \<open>i\<close> of \<open>p\<close> (the first such index).
\<close>

theorem predict_label_argmax:
  fixes env :: "('a::linorder, 'r, 'f) env"
  assumes "predict_prob env net f w = (Inr p, w1)" and "0 < n_labels net"
  shows "\<exists>ls. predict_label env net f w = (Inr ls, w1) \<and>
           length ls = shape (read (heap w) f) ! 0 \<and>
           (\<forall>i < length ls. is_first_argmax (row (heap w1 ! p) i) (ls ! i))"
proof -
  let ?P = "heap w1 ! p"
  let ?n = "shape (read (heap w) f) ! 0"
  from predict_prob_result [OF assms(1)]
  have sh: "shape ?P = [?n, nat (n_labels net)]"
    and le: "length (elems ?P) = ?n * nat (n_labels net)"
    by blast+
  have nz: "shape ?P ! 1 \<noteq> 0" using sh assms(2) by simp
  have pl: "predict_label env net f w = (Inr (np_argmax_axis1 ?P), w1)"
    using assms(1) nz by (simp add: predict_label_def)
  have len: "length (np_argmax_axis1 ?P) = ?n"
    using sh by (simp add: np_argmax_axis1_def)
  have "is_first_argmax (row ?P i) (np_argmax_axis1 ?P ! i)" if "i < ?n" for i
  proof -
    have "length (row ?P i) = nat (n_labels net)"
      using sh le that by (rule length_row)
    then have "row ?P i \<noteq> []" using assms(2) by auto
    then have "is_first_argmax (row ?P i) (argmax_row (row ?P i))"
      by (rule argmax_row_spec)
    then show ?thesis
      using that sh by (simp add: np_argmax_axis1_def)
  qed
  then show ?thesis using pl len by simp
qed

theorem predict_label_argmax_witness:
  "predict_prob demo_env demo_net (Whole 8) demo_world =
     (Inr 11, demo_world\<lparr>heap := heap demo_world @
        [\<lparr>dtype = Float32, shape = [3, 2], elems = [4, 3, 3, 4, 4, 4]\<rparr>]\<rparr>) \<and>
   0 < n_labels demo_net \<and>
   fst (predict_label demo_env demo_net (Whole 8) demo_world) = Inr [0, 1, 0] \<and>
   (\<exists>ls. predict_label demo_env demo_net (Whole 8) demo_world =
           (Inr ls, demo_world\<lparr>heap := heap demo_world @
              [\<lparr>dtype = Float32, shape = [3, 2], elems = [4, 3, 3, 4, 4, 4]\<rparr>]\<rparr>) \<and>
         length ls = shape (read (heap demo_world) (Whole 8)) ! 0 \<and>
         (\<forall>i < length ls.
            is_first_argmax
              (row (heap (demo_world\<lparr>heap := heap demo_world @
                 [\<lparr>dtype = Float32, shape = [3, 2], elems = [4, 3, 3, 4, 4, 4]\<rparr>]\<rparr>) ! 11) i)
              (ls ! i)))"
proof -
  have a: "predict_prob demo_env demo_net (Whole 8) demo_world =
     (Inr 11, demo_world\<lparr>heap := heap demo_world @
        [\<lparr>dtype = Float32, shape = [3, 2], elems = [4, 3, 3, 4, 4, 4]\<rparr>]\<rparr>)"
    by code_simp
  have b: "0 < n_labels demo_net" by (simp add: demo_net_def)
  have c: "fst (predict_label demo_env demo_net (Whole 8) demo_world) = Inr [0, 1, 0]"
    by code_simp
  show ?thesis
    using a b c predict_label_argmax [OF a b] by blast
qed

section \<open>\<^verbatim>\<open>train\<close> and the batch size\<close>

lemma those_map_Some:
  "list_all (\<lambda>x. f x \<noteq> None) xs \<Longrightarrow> \<exists>ys. those (map f xs) = Some ys"
  by (induction xs) auto

lemma net_ok_c_chain:
  assumes "net_ok h net"
  shows "\<exists>cs. c_chain h1 (chain net) = Some cs"
proof -
  have "list_all (\<lambda>l. c_layer h1 l \<noteq> None) (chain net)"
    using assms by (auto simp: net_ok_def list_all_iff c_layer_def split: option.splits)
  then show ?thesis
    using assms those_map_Some [of "c_layer h1" "chain net"]
    by (simp add: c_chain_def net_ok_def)
qed

lemma shape_poke: "shape (read (poke a xs h) x) = shape (read h x)"
proof (cases x)
  case (Whole b)
  show ?thesis
  proof (cases "a < length h")
    case True
    then show ?thesis by (simp add: Whole poke_def nth_list_update)
  next
    case False
    then have "h[a := (h ! a)\<lparr>elems := fit (elems (h ! a)) xs\<rparr>] = h"
      by (intro list_update_beyond) simp
    then show ?thesis by (simp add: Whole poke_def)
  qed
next
  case (View b sh ps)
  then show ?thesis by simp
qed

lemma shape_poke_layers: "shape (read (poke_layers ch cs h) x) = shape (read h x)"
proof (induction ch arbitrary: cs h)
  case Nil
  show ?case by simp
next
  case (Cons l ls)
  show ?case
  proof (cases cs)
    case Nil
    then show ?thesis by simp
  next
    case (Cons c cs1)
    then show ?thesis
      by (simp add: Cons.IH shape_poke split: option.splits)
  qed
qed

lemma train_epoch_run:
  assumes "net_ok h net" and "c_int_ok (int (shape (read (heap w) f) ! 0))"
  shows "\<exists>cs idx r1.
           c_chain (heap w) (chain net) = Some cs \<and>
           np_random_permutation env (shape (read (heap w) f) ! 0) (rng w) = (idx, r1) \<and>
           train_epoch env net f l bs alpha lamb w =
             (Inr (),
              w\<lparr>rng := r1,
                heap := poke_layers (chain net)
                  (neural_train_iteration env cs
                     (elems (copy_f32 env (take_rows (read (heap w) f) idx)))
                     (elems (copy_f32 env (take_rows (read (heap w) l) idx)))
                     (int (shape (read (heap w) f) ! 0)) bs alpha lamb)
                  (heap w)\<rparr>)"
proof -
  obtain idx r1 where p: "np_random_permutation env (shape (read (heap w) f) ! 0) (rng w) = (idx, r1)"
    by (cases "np_random_permutation env (shape (read (heap w) f) ! 0) (rng w)")
  obtain cs where c: "c_chain (heap w) (chain net) = Some cs"
    using net_ok_c_chain [OF assms(1)] by blast
  have "train_epoch env net f l bs alpha lamb w =
             (Inr (),
              w\<lparr>rng := r1,
                heap := poke_layers (chain net)
                  (neural_train_iteration env cs
                     (elems (copy_f32 env (take_rows (read (heap w) f) idx)))
                     (elems (copy_f32 env (take_rows (read (heap w) l) idx)))
                     (int (shape (read (heap w) f) ! 0)) bs alpha lamb)
                  (heap w)\<rparr>)"
    using p c assms(2) by (simp add: train_epoch_def)
  then show ?thesis
    using p c by blast
qed

lemma train_epoch_shape:
  assumes "train_epoch env net f l bs alpha lamb w = (r, w1)"
  shows "shape (read (heap w1) x) = shape (read (heap w) x)"
  using assms
  by (auto simp: train_epoch_def Let_def shape_poke_layers
      split: prod.splits if_splits option.splits)

lemma train_loop_run:
  assumes "net_ok h net"
  shows "c_int_ok (int (shape (read (heap w) f) ! 0)) \<Longrightarrow>
         \<exists>w1. train_loop env net f l bs lamb decay n alpha w = (Inr (), w1) \<and>
              shape (read (heap w1) f) = shape (read (heap w) f)"
proof (induction n arbitrary: alpha w)
  case 0
  show ?case by simp
next
  case (Suc n)
  obtain w1 where e: "train_epoch env net f l bs alpha lamb w = (Inr (), w1)"
    using train_epoch_run [OF assms Suc.prems, of env l bs alpha lamb] by blast
  have s: "shape (read (heap w1) f) = shape (read (heap w) f)"
    using e by (rule train_epoch_shape)
  then have "c_int_ok (int (shape (read (heap w1) f) ! 0))"
    using Suc.prems by simp
  from Suc.IH [OF this, of "alpha * decay"]
  obtain w2 where "train_loop env net f l bs lamb decay n (alpha * decay) w1 = (Inr (), w2)"
    and "shape (read (heap w2) f) = shape (read (heap w1) f)"
    by blast
  then show ?case using e s by simp
qed

lemma scratch_addrs_Cons:
  "set (scratch_addrs (l # ls)) = set_option (act l) \<union> set_option (delta l) \<union> set (scratch_addrs ls)"
  by (auto simp: scratch_addrs_def split: option.splits)

lemma set_batch_chain_frame:
  "\<exists>r ch1 w1 hs. set_batch_chain env ch bs w = (r, ch1, w1) \<and> heap w1 = heap w @ hs \<and>
      map bias ch1 = map bias ch \<and> map theta ch1 = map theta ch \<and>
      (\<forall>a \<in> set (scratch_addrs ch1). a \<in> set (scratch_addrs ch) \<or> length (heap w) \<le> a)"
proof (induction ch arbitrary: w)
  case Nil
  show ?case by simp
next
  case (Cons l ls)
  show ?case
  proof (cases "in_nodes l * bs < 0")
    case True
    then show ?thesis by (simp add: NetLayer_set_batch_def)
  next
    case False
    let ?w1 = "w\<lparr>heap := heap w @ [np_zeros env [nat (in_nodes l * bs)],
                                   np_zeros env [nat (in_nodes l * bs)]]\<rparr>"
    let ?l1 = "l\<lparr>act := Some (length (heap w)), delta := Some (Suc (length (heap w)))\<rparr>"
    have sb: "NetLayer_set_batch env l bs w = (Inr (), ?l1, ?w1)"
      using False by (simp add: NetLayer_set_batch_ok)
    from Cons.IH [of ?w1]
    obtain r ch1 w2 hs where c: "set_batch_chain env ls bs ?w1 = (r, ch1, w2)"
      and h: "heap w2 = heap ?w1 @ hs"
      and m: "map bias ch1 = map bias ls" "map theta ch1 = map theta ls"
      and s: "\<forall>a \<in> set (scratch_addrs ch1). a \<in> set (scratch_addrs ls) \<or> length (heap ?w1) \<le> a"
      by blast
    have s': "\<forall>a \<in> set (scratch_addrs (?l1 # ch1)).
                a \<in> set (scratch_addrs (l # ls)) \<or> length (heap w) \<le> a"
    proof
      fix a assume "a \<in> set (scratch_addrs (?l1 # ch1))"
      then have "a = length (heap w) \<or> a = Suc (length (heap w)) \<or> a \<in> set (scratch_addrs ch1)"
        by (auto simp: scratch_addrs_Cons)
      moreover have "a \<in> set (scratch_addrs ls) \<or> length (heap ?w1) \<le> a"
        if "a \<in> set (scratch_addrs ch1)"
        using s that by blast
      ultimately show "a \<in> set (scratch_addrs (l # ls)) \<or> length (heap w) \<le> a"
        by (auto simp: scratch_addrs_Cons)
    qed
    show ?thesis
      using sb c h m s' by simp
  qed
qed

lemma NeuralNet_set_batch_frame:
  "\<exists>r net1 w1 hs. NeuralNet_set_batch env net bs w = (r, net1, w1) \<and> heap w1 = heap w @ hs \<and>
      map bias (chain net1) = map bias (chain net) \<and>
      map theta (chain net1) = map theta (chain net) \<and>
      (\<forall>a \<in> set (scratch_addrs (chain net1)).
         a \<in> set (scratch_addrs (chain net)) \<or> length (heap w) \<le> a)"
proof (cases "c_int_ok bs")
  case False
  then show ?thesis by (simp add: NeuralNet_set_batch_def)
next
  case True
  from set_batch_chain_frame [of env "chain net" bs w]
  obtain r ch1 w1 hs where "set_batch_chain env (chain net) bs w = (r, ch1, w1)"
    "heap w1 = heap w @ hs" "map bias ch1 = map bias (chain net)"
    "map theta ch1 = map theta (chain net)"
    "\<forall>a \<in> set (scratch_addrs ch1). a \<in> set (scratch_addrs (chain net)) \<or> length (heap w) \<le> a"
    by blast
  then show ?thesis
    using True by (simp add: NeuralNet_set_batch_def)
qed

lemma NeuralNet_set_batch_ok:
  assumes "net_ok (heap w) net" and "list_all (\<lambda>l. 0 \<le> in_nodes l) (chain net)"
    and "0 \<le> bs" and "bs < 2 ^ 31"
  shows "\<exists>net1 w1. NeuralNet_set_batch env net bs w = (Inr (), net1, w1) \<and>
           net_ok (heap w1) net1"
proof -
  have ci: "c_int_ok bs"
    using assms(3,4) by (simp add: c_int_ok_def)
  from set_batch_chain_ok [OF assms(2,3), of env w]
  obtain ch1 w1 hs where s: "set_batch_chain env (chain net) bs w = (Inr (), ch1, w1)"
    and h: "heap w1 = heap w @ hs"
    and m: "map bias ch1 = map bias (chain net)" "map theta ch1 = map theta (chain net)"
    and b: "list_all (\<lambda>l. (case act l of None \<Rightarrow> False
                            | Some a \<Rightarrow> length (heap w) \<le> a \<and> a < length (heap w1)) \<and>
                          (case delta l of None \<Rightarrow> False
                            | Some d \<Rightarrow> length (heap w) \<le> d \<and> d < length (heap w1))) ch1"
    by blast
  have len: "length ch1 = length (chain net)"
    using m(1) by (metis length_map)
  have ne: "ch1 \<noteq> []"
    using assms(1) len by (auto simp: net_ok_def)
  have old: "bias l < length (heap w) \<and> theta l < length (heap w) \<and>
             dtype (heap w ! bias l) = Float32 \<and> dtype (heap w ! theta l) = Float32"
    if "l \<in> set ch1" for l
  proof -
    from that obtain k where k: "k < length ch1" "l = ch1 ! k"
      by (auto simp: in_set_conv_nth)
    have "bias (ch1 ! k) = bias (chain net ! k)" "theta (ch1 ! k) = theta (chain net ! k)"
      using m k len by (metis nth_map)+
    moreover have "chain net ! k \<in> set (chain net)"
      using k len by simp
    ultimately show ?thesis
      using assms(1) k by (auto simp: net_ok_def list_all_iff)
  qed
  have fresh: "length (heap w) \<le> a" if "a \<in> set (scratch_addrs ch1)" for a
    using b that by (auto simp: in_scratch_addrs list_all_iff split: option.splits)
  have "net_ok (heap w1) (net\<lparr>batch_size := bs, chain := ch1\<rparr>)"
    unfolding net_ok_def list_all_iff
  proof (intro conjI ballI)
    show "chain (net\<lparr>batch_size := bs, chain := ch1\<rparr>) \<noteq> []" using ne by simp
  next
    fix l assume l: "l \<in> set (chain (net\<lparr>batch_size := bs, chain := ch1\<rparr>))"
    then have l1: "l \<in> set ch1" by simp
    from old [OF l1] have o: "bias l < length (heap w)" "theta l < length (heap w)"
      "dtype (heap w ! bias l) = Float32" "dtype (heap w ! theta l) = Float32"
      by simp_all
    show "bias l < length (heap w1)" "theta l < length (heap w1)"
      using o h by simp_all
    show "dtype (heap w1 ! bias l) = Float32" "dtype (heap w1 ! theta l) = Float32"
      using o h by (simp_all add: nth_append)
    show "bias l \<notin> set (scratch_addrs (chain (net\<lparr>batch_size := bs, chain := ch1\<rparr>)))"
      using o(1) fresh by fastforce
    show "theta l \<notin> set (scratch_addrs (chain (net\<lparr>batch_size := bs, chain := ch1\<rparr>)))"
      using o(2) fresh by fastforce
    show "case act l of None \<Rightarrow> False | Some a \<Rightarrow> a < length (heap w1)"
      using b l1 by (auto simp: list_all_iff split: option.splits)
    show "case delta l of None \<Rightarrow> False | Some d \<Rightarrow> d < length (heap w1)"
      using b l1 by (auto simp: list_all_iff split: option.splits)
  qed
  then show ?thesis
    using s ci by (simp add: NeuralNet_set_batch_def)
qed

lemma train_prepare_ok:
  assumes "net_ok (heap w) net" and "list_all (\<lambda>l. 0 \<le> in_nodes l) (chain net)"
    and "train_check net (read (heap w) f) (read (heap w) l) bs = None"
    and "0 < bs" and "bs < 2 ^ 31"
  shows "\<exists>net1 w1 hs. train_prepare env net f l bs w = (Inr (), net1, w1) \<and>
           net_ok (heap w1) net1 \<and> heap w1 = heap w @ hs"
proof (cases "bs = batch_size net")
  case True
  then show ?thesis using assms(1,3) by (simp add: train_prepare_def)
next
  case False
  from NeuralNet_set_batch_ok [OF assms(1,2) _ assms(5), of env] assms(4)
  obtain net1 w1 where a: "NeuralNet_set_batch env net bs w = (Inr (), net1, w1)"
    and b: "net_ok (heap w1) net1"
    by auto
  from NeuralNet_set_batch_frame [of env net bs w] a
  obtain hs where "heap w1 = heap w @ hs" by auto
  then show ?thesis
    using a b False assms(3) by (simp add: train_prepare_def)
qed

text \<open>
  Claim C6, as the code has it. \<^verbatim>\<open>train\<close> makes no check of the row count against
  the batch size. Take a network in the state the constructor and \<^verbatim>\<open>set_batch\<close> leave
  it in (every layer has its parameter arrays and its buffers, and no layer size is
  negative), features and labels that are arrays of the store with two axes each, as many
  rows in the one as in the other, \<^verbatim>\<open>n_features\<close> and \<^verbatim>\<open>n_labels\<close> columns, a
  row count that fits a C \<^verbatim>\<open>int\<close>, and a batch size that is a positive C
  \<^verbatim>\<open>int\<close>. Then, whatever the row count is modulo the batch size:

    \<^item> \<^verbatim>\<open>train\<close> returns normally for every \<^verbatim>\<open>max_iter\<close>;

    \<^item> for every \<open>k\<close> the run of \<open>k + 1\<close> epochs is the run of \<open>k\<close> epochs
      followed by one more call of \<^verbatim>\<open>neural_train_iteration\<close>, and that call is handed
      the row count of the features as \<^verbatim>\<open>n_samples\<close> and the caller's
      \<^verbatim>\<open>batch_size\<close> unchanged (with the shuffled float32 copies and the rate of that
      epoch).

  So no epoch is skipped and nothing is rounded or rejected on the way to the C routine.
\<close>

theorem train_accepts_any_row_count:
  fixes env :: "('a, 'r, 'f::times) env"
  assumes "net_ok (heap w) net" and "list_all (\<lambda>l. 0 \<le> in_nodes l) (chain net)"
    and "base_of f < length (heap w)"
    and "2 \<le> length (shape (read (heap w) f))" and "2 \<le> length (shape (read (heap w) l))"
    and "shape (read (heap w) f) ! 0 = shape (read (heap w) l) ! 0"
    and "int (shape (read (heap w) f) ! 1) = n_features net"
    and "int (shape (read (heap w) l) ! 1) = n_labels net"
    and "int (shape (read (heap w) f) ! 0) < 2 ^ 31"
    and "0 < bs" and "bs < 2 ^ 31"
  shows "(\<exists>net1 w1. train env net f l max_iter bs alpha lamb decay w = (Inr (), net1, w1)) \<and>
         (\<exists>net1 w1 cs idx r1.
            train env net f l (int k) bs alpha lamb decay w = (Inr (), net1, w1) \<and>
            c_chain (heap w1) (chain net1) = Some cs \<and>
            np_random_permutation env (shape (read (heap w) f) ! 0) (rng w1) = (idx, r1) \<and>
            train env net f l (int (Suc k)) bs alpha lamb decay w =
              (Inr (), net1,
               w1\<lparr>rng := r1,
                  heap := poke_layers (chain net1)
                    (neural_train_iteration env cs
                       (elems (copy_f32 env (take_rows (read (heap w1) f) idx)))
                       (elems (copy_f32 env (take_rows (read (heap w1) l) idx)))
                       (int (shape (read (heap w) f) ! 0)) bs
                       (((\<lambda>a. a * decay) ^^ k) alpha) lamb)
                    (heap w1)\<rparr>))"
proof -
  have chk: "train_check net (read (heap w) f) (read (heap w) l) bs = None"
    using assms(4-8,10) by (auto simp: train_check_def)
  from train_prepare_ok [OF assms(1,2) chk assms(10,11), of env]
  obtain net1 w0 hs where p: "train_prepare env net f l bs w = (Inr (), net1, w0)"
    and ok: "net_ok (heap w0) net1" and ext: "heap w0 = heap w @ hs"
    by blast
  have s0: "shape (read (heap w0) f) = shape (read (heap w) f)"
    using ext assms(3) by (simp add: read_append)
  have ci: "c_int_ok (int (shape (read (heap w0) f) ! 0))"
    using assms(9) s0 by (simp add: c_int_ok_def)
  from train_loop_run [OF ok ci, of env l bs lamb decay "nat max_iter" alpha]
  obtain w9 where "train_loop env net1 f l bs lamb decay (nat max_iter) alpha w0 = (Inr (), w9)"
    by blast
  then have first: "\<exists>net1 w1. train env net f l max_iter bs alpha lamb decay w = (Inr (), net1, w1)"
    using p by (simp add: train_def)
  from train_loop_run [OF ok ci, of env l bs lamb decay k alpha]
  obtain w1 where t: "train_loop env net1 f l bs lamb decay k alpha w0 = (Inr (), w1)"
    and s1: "shape (read (heap w1) f) = shape (read (heap w0) f)"
    by blast
  have tk: "train env net f l (int k) bs alpha lamb decay w = (Inr (), net1, w1)"
    using p t by (simp add: train_def)
  have ci1: "c_int_ok (int (shape (read (heap w1) f) ! 0))"
    using ci s1 by simp
  from train_epoch_run [OF ok ci1, of env l bs "((\<lambda>a. a * decay) ^^ k) alpha" lamb]
  obtain cs idx r1 where c: "c_chain (heap w1) (chain net1) = Some cs"
    and pm: "np_random_permutation env (shape (read (heap w1) f) ! 0) (rng w1) = (idx, r1)"
    and e: "train_epoch env net1 f l bs (((\<lambda>a. a * decay) ^^ k) alpha) lamb w1 =
             (Inr (),
              w1\<lparr>rng := r1,
                 heap := poke_layers (chain net1)
                   (neural_train_iteration env cs
                      (elems (copy_f32 env (take_rows (read (heap w1) f) idx)))
                      (elems (copy_f32 env (take_rows (read (heap w1) l) idx)))
                      (int (shape (read (heap w1) f) ! 0)) bs
                      (((\<lambda>a. a * decay) ^^ k) alpha) lamb)
                   (heap w1)\<rparr>)"
    by blast
  have sh: "shape (read (heap w1) f) = shape (read (heap w) f)"
    using s0 s1 by simp
  have "train_loop env net1 f l bs lamb decay (Suc k) alpha w0 =
          train_epoch env net1 f l bs (((\<lambda>a. a * decay) ^^ k) alpha) lamb w1"
    using t by (simp add: train_loop_snoc del: train_loop.simps)
  then have tsk: "train env net f l (int (Suc k)) bs alpha lamb decay w =
              (Inr (), net1,
               w1\<lparr>rng := r1,
                  heap := poke_layers (chain net1)
                    (neural_train_iteration env cs
                       (elems (copy_f32 env (take_rows (read (heap w1) f) idx)))
                       (elems (copy_f32 env (take_rows (read (heap w1) l) idx)))
                       (int (shape (read (heap w) f) ! 0)) bs
                       (((\<lambda>a. a * decay) ^^ k) alpha) lamb)
                    (heap w1)\<rparr>)"
    using p e sh by (simp add: train_def nat_one_plus_int del: train_loop.simps)
  have pm': "np_random_permutation env (shape (read (heap w) f) ! 0) (rng w1) = (idx, r1)"
    using pm sh by simp
  show ?thesis
    using first tk c pm' tsk by blast
qed

theorem train_accepts_any_row_count_witness:
  "net_ok (heap demo_world) demo_net \<and> list_all (\<lambda>l. 0 \<le> in_nodes l) (chain demo_net) \<and>
   base_of (Whole 8) < length (heap demo_world) \<and>
   2 \<le> length (shape (read (heap demo_world) (Whole 8))) \<and>
   2 \<le> length (shape (read (heap demo_world) (Whole 9))) \<and>
   shape (read (heap demo_world) (Whole 8)) ! 0 = shape (read (heap demo_world) (Whole 9)) ! 0 \<and>
   int (shape (read (heap demo_world) (Whole 8)) ! 1) = n_features demo_net \<and>
   int (shape (read (heap demo_world) (Whole 9)) ! 1) = n_labels demo_net \<and>
   int (shape (read (heap demo_world) (Whole 8)) ! 0) < 2 ^ 31 \<and>
   (0::int) < 5 \<and> (5::int) < 2 ^ 31 \<and>
   shape (read (heap demo_world) (Whole 8)) ! 0 mod 5 \<noteq> 0 \<and>
   (\<exists>net1 w1. train demo_env demo_net (Whole 8) (Whole 9) 3 5 1 0 1 demo_world =
                 (Inr (), net1, w1)) \<and>
   (\<exists>net1 w1 cs idx r1.
      train demo_env demo_net (Whole 8) (Whole 9) (int 2) 5 1 0 1 demo_world =
        (Inr (), net1, w1) \<and>
      c_chain (heap w1) (chain net1) = Some cs \<and>
      np_random_permutation demo_env (shape (read (heap demo_world) (Whole 8)) ! 0) (rng w1) =
        (idx, r1) \<and>
      train demo_env demo_net (Whole 8) (Whole 9) (int (Suc 2)) 5 1 0 1 demo_world =
        (Inr (), net1,
         w1\<lparr>rng := r1,
            heap := poke_layers (chain net1)
              (neural_train_iteration demo_env cs
                 (elems (copy_f32 demo_env (take_rows (read (heap w1) (Whole 8)) idx)))
                 (elems (copy_f32 demo_env (take_rows (read (heap w1) (Whole 9)) idx)))
                 (int (shape (read (heap demo_world) (Whole 8)) ! 0)) 5
                 (((\<lambda>a. a * 1) ^^ 2) 1) 0)
              (heap w1)\<rparr>))"
proof -
  have a: "net_ok (heap demo_world) demo_net" by code_simp
  have b: "list_all (\<lambda>l. 0 \<le> in_nodes l) (chain demo_net)" by code_simp
  have b1: "base_of (Whole 8) < length (heap demo_world)" by code_simp
  have c: "2 \<le> length (shape (read (heap demo_world) (Whole 8)))" by code_simp
  have d: "2 \<le> length (shape (read (heap demo_world) (Whole 9)))" by code_simp
  have e: "shape (read (heap demo_world) (Whole 8)) ! 0 =
           shape (read (heap demo_world) (Whole 9)) ! 0" by code_simp
  have f: "int (shape (read (heap demo_world) (Whole 8)) ! 1) = n_features demo_net" by code_simp
  have g: "int (shape (read (heap demo_world) (Whole 9)) ! 1) = n_labels demo_net" by code_simp
  have g1: "int (shape (read (heap demo_world) (Whole 8)) ! 0) < 2 ^ 31"
    by (simp add: demo_world_def)
  have h: "(0::int) < 5" by simp
  have i: "(5::int) < 2 ^ 31" by simp
  have j: "shape (read (heap demo_world) (Whole 8)) ! 0 mod 5 \<noteq> 0" by code_simp
  show ?thesis
    using a b b1 c d e f g g1 h i j
      train_accepts_any_row_count [OF a b b1 c d e f g g1 h i, of demo_env 3 1 0 1 2]
    by blast
qed

text \<open>
  Claim C6 as stated fails: three rows with a batch size of 2 are not rejected.
\<close>

theorem train_runs_on_indivisible_rows:
  "shape (read (heap demo_world) (Whole 8)) ! 0 mod 2 \<noteq> 0 \<and>
   fst (train demo_env demo_net (Whole 8) (Whole 9) 1 2 1 0 1 demo_world) = Inr ()"
  by code_simp

section \<open>What \<^verbatim>\<open>train\<close> and \<^verbatim>\<open>predict_prob\<close> write\<close>

lemma length_poke: "length (poke a xs h) = length h"
  by (simp add: poke_def)

lemma nth_poke_other: "a \<noteq> b \<Longrightarrow> poke a xs h ! b = h ! b"
  by (simp add: poke_def)

lemma length_poke_scratch: "length (poke_scratch ch outs h) = length h"
  by (induction ch outs h rule: poke_scratch.induct) (auto simp: length_poke split: option.splits)

lemma length_poke_layers: "length (poke_layers ch cs h) = length h"
  by (induction ch cs h rule: poke_layers.induct) (auto simp: length_poke split: option.splits)

lemma poke_scratch_other:
  "b \<notin> set (scratch_addrs ch) \<Longrightarrow> poke_scratch ch outs h ! b = h ! b"
proof (induction ch outs h rule: poke_scratch.induct)
  case (1 l ls xa xd outs h)
  then show ?case
    by (auto simp: scratch_addrs_Cons nth_poke_other split: option.splits)
qed simp_all

lemma set_param_addrs: "set (param_addrs ch) = set (map bias ch) \<union> set (map theta ch)"
  by (induction ch) (auto simp: param_addrs_def)

lemma poke_layers_other:
  "b \<notin> set (param_addrs ch) \<Longrightarrow> b \<notin> set (scratch_addrs ch) \<Longrightarrow> poke_layers ch cs h ! b = h ! b"
proof (induction ch cs h rule: poke_layers.induct)
  case (1 l ls c cs h)
  then show ?case
    by (auto simp: scratch_addrs_Cons set_param_addrs nth_poke_other split: option.splits)
qed simp_all

lemma train_epoch_other:
  assumes "b \<notin> set (param_addrs (chain net))" and "b \<notin> set (scratch_addrs (chain net))"
  shows "heap (snd (train_epoch env net f l bs alpha lamb w)) ! b = heap w ! b"
  using assms
  by (auto simp: train_epoch_def Let_def poke_layers_other
      split: prod.splits option.splits if_splits)

lemma length_train_epoch:
  "length (heap (snd (train_epoch env net f l bs alpha lamb w))) = length (heap w)"
  by (auto simp: train_epoch_def Let_def length_poke_layers
      split: prod.splits option.splits if_splits)

lemma train_loop_other:
  assumes "b \<notin> set (param_addrs (chain net))" and "b \<notin> set (scratch_addrs (chain net))"
  shows "heap (snd (train_loop env net f l bs lamb decay n alpha w)) ! b = heap w ! b"
proof (induction n arbitrary: alpha w)
  case 0
  show ?case by simp
next
  case (Suc n)
  obtain r w1 where e: "train_epoch env net f l bs alpha lamb w = (r, w1)"
    by (cases "train_epoch env net f l bs alpha lamb w")
  have "heap w1 ! b = heap w ! b"
    using train_epoch_other [OF assms, of env f l bs alpha lamb w] e by simp
  then show ?case
    using e Suc.IH [of "alpha * decay" w1] by (cases r) simp_all
qed

lemma train_prepare_frame:
  "\<exists>r net1 w1 hs. train_prepare env net f l bs w = (r, net1, w1) \<and> heap w1 = heap w @ hs \<and>
      map bias (chain net1) = map bias (chain net) \<and>
      map theta (chain net1) = map theta (chain net) \<and>
      (\<forall>a \<in> set (scratch_addrs (chain net1)).
         a \<in> set (scratch_addrs (chain net)) \<or> length (heap w) \<le> a)"
proof (cases "train_check net (read (heap w) f) (read (heap w) l) bs")
  case (Some e)
  then show ?thesis by (simp add: train_prepare_def)
next
  case None
  show ?thesis
  proof (cases "bs = batch_size net")
    case True
    then show ?thesis using None by (simp add: train_prepare_def)
  next
    case False
    then show ?thesis
      using None NeuralNet_set_batch_frame [of env net bs w] by (simp add: train_prepare_def)
  qed
qed

lemma train_other:
  assumes "b < length (heap w)" and "b \<notin> set (param_addrs (chain net))"
    and "b \<notin> set (scratch_addrs (chain net))"
  shows "heap (snd (snd (train env net f l max_iter bs alpha lamb decay w))) ! b = heap w ! b"
proof -
  from train_prepare_frame [of env net f l bs w]
  obtain r net1 w1 hs where p: "train_prepare env net f l bs w = (r, net1, w1)"
    and h: "heap w1 = heap w @ hs"
    and m: "map bias (chain net1) = map bias (chain net)"
      "map theta (chain net1) = map theta (chain net)"
    and s: "\<forall>a \<in> set (scratch_addrs (chain net1)).
              a \<in> set (scratch_addrs (chain net)) \<or> length (heap w) \<le> a"
    by blast
  have b1: "heap w1 ! b = heap w ! b"
    using h assms(1) by (simp add: nth_append)
  have np: "b \<notin> set (param_addrs (chain net1))"
    using assms(2) m by (simp add: set_param_addrs)
  have ns: "b \<notin> set (scratch_addrs (chain net1))"
    using s assms(1,3) by fastforce
  show ?thesis
  proof (cases r)
    case (Inl e)
    then show ?thesis using p b1 by (simp add: train_def)
  next
    case (Inr u)
    obtain r2 w2 where t: "train_loop env net1 f l bs lamb decay (nat max_iter) alpha w1 = (r2, w2)"
      by (cases "train_loop env net1 f l bs lamb decay (nat max_iter) alpha w1")
    have "heap w2 ! b = heap w1 ! b"
      using train_loop_other [OF np ns, of env f l bs lamb decay "nat max_iter" alpha w1] t
      by simp
    then show ?thesis
      using p Inr t b1 by (simp add: train_def)
  qed
qed

lemma predict_prob_other:
  assumes "b < length (heap w)" and "b \<notin> set (scratch_addrs (chain net))"
  shows "heap (snd (predict_prob env net f w)) ! b = heap w ! b"
  using assms
  by (auto simp: predict_prob_def alloc_def Let_def nth_append length_poke_scratch
      poke_scratch_other split: option.splits prod.splits)

text \<open>
  Claim C10, as the code has it. Both methods hand the C routines fresh float32 copies of
  their arguments, and the routines write only into the buffers of the layers. So
  \<^verbatim>\<open>predict_prob\<close> leaves its features array as it was, and \<^verbatim>\<open>train\<close> leaves a
  features or labels array as it was unless the data of that array is the data of one of
  the network's own parameter arrays: the array is one that \<^verbatim>\<open>get_params\<close> handed out,
  or a view of one. The arrays are given by reference, whole arrays and views alike. The
  data of a caller's array is never that of an \<^verbatim>\<open>act\<close> or \<^verbatim>\<open>delta\<close> buffer, since
  no method returns one. This holds whatever the two C routines compute.
\<close>

theorem train_and_predict_keep_caller_arrays:
  assumes "base_of f < length (heap w)" and "base_of l < length (heap w)"
    and "base_of f \<notin> set (scratch_addrs (chain net))"
    and "base_of l \<notin> set (scratch_addrs (chain net))"
  shows "read (heap (snd (predict_prob env net f w))) f = read (heap w) f \<and>
         (base_of f \<notin> set (param_addrs (chain net)) \<longrightarrow>
            read (heap (snd (snd (train env net f l max_iter bs alpha lamb decay w)))) f =
            read (heap w) f) \<and>
         (base_of l \<notin> set (param_addrs (chain net)) \<longrightarrow>
            read (heap (snd (snd (train env net f l max_iter bs alpha lamb decay w)))) l =
            read (heap w) l)"
proof (intro conjI impI)
  show "read (heap (snd (predict_prob env net f w))) f = read (heap w) f"
    using assms(1,3) by (intro read_cong predict_prob_other)
next
  assume "base_of f \<notin> set (param_addrs (chain net))"
  then show "read (heap (snd (snd (train env net f l max_iter bs alpha lamb decay w)))) f =
             read (heap w) f"
    using assms(1,3) by (intro read_cong train_other)
next
  assume "base_of l \<notin> set (param_addrs (chain net))"
  then show "read (heap (snd (snd (train env net f l max_iter bs alpha lamb decay w)))) l =
             read (heap w) l"
    using assms(2,4) by (intro read_cong train_other)
qed

text \<open>
  An instance: the features are the view \<^verbatim>\<open>features[::2]\<close> of a caller's array of
  three rows, the labels an array of two rows.
\<close>

theorem train_and_predict_keep_caller_arrays_witness:
  "base_of (View 8 [2, 2] [0, 1, 4, 5]) < length (heap demo_world) \<and>
   base_of (Whole 10) < length (heap demo_world) \<and>
   base_of (View 8 [2, 2] [0, 1, 4, 5]) \<notin> set (scratch_addrs (chain demo_net)) \<and>
   base_of (Whole 10) \<notin> set (scratch_addrs (chain demo_net)) \<and>
   base_of (View 8 [2, 2] [0, 1, 4, 5]) \<notin> set (param_addrs (chain demo_net)) \<and>
   base_of (Whole 10) \<notin> set (param_addrs (chain demo_net)) \<and>
   fst (train demo_env demo_net (View 8 [2, 2] [0, 1, 4, 5]) (Whole 10) 1 2 1 0 1 demo_world) =
     Inr () \<and>
   read (heap (snd (predict_prob demo_env demo_net (View 8 [2, 2] [0, 1, 4, 5]) demo_world)))
     (View 8 [2, 2] [0, 1, 4, 5]) =
   read (heap demo_world) (View 8 [2, 2] [0, 1, 4, 5]) \<and>
   read (heap (snd (snd (train demo_env demo_net (View 8 [2, 2] [0, 1, 4, 5]) (Whole 10)
                           1 2 1 0 1 demo_world))))
     (View 8 [2, 2] [0, 1, 4, 5]) =
   read (heap demo_world) (View 8 [2, 2] [0, 1, 4, 5]) \<and>
   read (heap (snd (snd (train demo_env demo_net (View 8 [2, 2] [0, 1, 4, 5]) (Whole 10)
                           1 2 1 0 1 demo_world))))
     (Whole 10) =
   read (heap demo_world) (Whole 10)"
proof -
  have a: "base_of (View 8 [2, 2] [0, 1, 4, 5]) < length (heap demo_world)" by code_simp
  have b: "base_of (Whole 10) < length (heap demo_world)" by code_simp
  have c: "base_of (View 8 [2, 2] [0, 1, 4, 5]) \<notin> set (scratch_addrs (chain demo_net))"
    by code_simp
  have d: "base_of (Whole 10) \<notin> set (scratch_addrs (chain demo_net))" by code_simp
  have e: "base_of (View 8 [2, 2] [0, 1, 4, 5]) \<notin> set (param_addrs (chain demo_net))"
    by code_simp
  have f: "base_of (Whole 10) \<notin> set (param_addrs (chain demo_net))" by code_simp
  have g: "fst (train demo_env demo_net (View 8 [2, 2] [0, 1, 4, 5]) (Whole 10) 1 2 1 0 1
                  demo_world) = Inr ()"
    by (simp add: train_def train_prepare_def train_check_def demo_net_def demo_world_def
        train_epoch_def np_random_permutation_def c_int_ok_def
        c_chain_def c_layer_def demo_env_def Let_def split: prod.splits)
  show ?thesis
    using a b c d e f g
      train_and_predict_keep_caller_arrays [OF a b c d, of demo_env 1 2 1 0 1]
    by blast
qed

text \<open>
  Claim C10 as stated fails. The network is well formed, with arrays of the sizes the
  constructor gives them. It has one weight, the array \<^verbatim>\<open>theta\<close> of its head layer,
  which \<^verbatim>\<open>get_params()[0][1]\<close> returns; a caller reshapes it to a matrix of
  one row and one column, a new array object on the same data, and passes that to
  \<^verbatim>\<open>train\<close> as the features, with the label 1. The call passes every assertion and
  runs its one epoch; the C routine updates the weight in place through the layer's
  pointer, and after the call the argument holds \<open>2 - sigmoid 1\<close> where it held 1.
\<close>

theorem train_changes_aliased_features:
  "net_ok (heap spec_world) spec_net \<and>
   list_all (layer_sized (heap spec_world)) (chain spec_net) \<and>
   theta_view \<notin> set (concat (map (\<lambda>(b, t). [b, t]) (NeuralNet_get_params spec_net))) \<and>
   base_of theta_view \<notin> set (scratch_addrs (chain spec_net)) \<and>
   read (heap spec_world) theta_view = \<lparr>dtype = Float32, shape = [1, 1], elems = [1]\<rparr> \<and>
   fst (train spec_env spec_net theta_view (Whole 8) 1 1 1 0 1 spec_world) = Inr () \<and>
   read (heap (snd (snd (train spec_env spec_net theta_view (Whole 8) 1 1 1 0 1 spec_world))))
     theta_view = \<lparr>dtype = Float32, shape = [1, 1], elems = [2 - sigmoid 1]\<rparr> \<and>
   2 - sigmoid 1 \<noteq> 1"
proof -
  have "exp (- 1 :: real) > 0" by simp
  then have s: "sigmoid 1 \<noteq> 1" by (simp add: sigmoid_def)
  have t: "train spec_env spec_net theta_view (Whole 8) 1 1 1 0 1 spec_world =
   (Inr (), spec_net, spec_world\<lparr>heap :=
        [\<lparr>dtype = Float32, shape = [1], elems = [1 - sigmoid 1]\<rparr>,
         \<lparr>dtype = Float32, shape = [1], elems = [2 - sigmoid 1]\<rparr>,
         \<lparr>dtype = Float32, shape = [0], elems = []\<rparr>,
         \<lparr>dtype = Float32, shape = [0], elems = []\<rparr>,
         \<lparr>dtype = Float32, shape = [1], elems = [1]\<rparr>,
         \<lparr>dtype = Float32, shape = [1], elems = [0]\<rparr>,
         \<lparr>dtype = Float32, shape = [1], elems = [sigmoid 1]\<rparr>,
         \<lparr>dtype = Float32, shape = [1], elems = [sigmoid 1 - 1]\<rparr>,
         \<lparr>dtype = Float64, shape = [1, 1], elems = [1]\<rparr>]\<rparr>)"
    by (simp add: train_def train_prepare_def train_check_def spec_net_def spec_world_def
        theta_view_def train_epoch_def np_random_permutation_def c_int_ok_def
        take_rows_def row_def row_size_def copy_f32_def c_chain_def c_layer_def spec_env_def
        spec_train_iteration_def train_batch_def matrix_rows_def layer_forward_def
        layer_delta_def layer_update_def dot_def poke_def fit_def Let_def)
  have n: "net_ok (heap spec_world) spec_net"
    by (simp add: net_ok_def spec_world_def spec_net_def scratch_addrs_def)
  have z: "list_all (layer_sized (heap spec_world)) (chain spec_net)"
    by (simp add: layer_sized_def spec_world_def spec_net_def np_size_def)
  show ?thesis
    using s n z
    by (simp add: t)
      (simp add: theta_view_def spec_world_def spec_net_def NeuralNet_get_params_def
        NetLayer_get_params_def scratch_addrs_def)
qed

section \<open>Copies and references\<close>

text \<open>
  Claim C3, as the code has it. \<^verbatim>\<open>set_params\<close> takes the values in by copy: after a
  successful \<^verbatim>\<open>set_params(bias, theta)\<close>, writing into either argument array leaves
  the arrays the layer holds as they were. \<^verbatim>\<open>get_params\<close> does not copy: it returns
  the layer's own arrays, and writing into a returned array writes into the parameter the
  layer holds. The arguments of \<^verbatim>\<open>set_params\<close> are given by reference, whole arrays
  and views alike.
\<close>

theorem set_params_copies_get_params_aliases:
  assumes "base_of b < length (heap w)" and "base_of t < length (heap w)"
    and "NetLayer_set_params env l b t w = (Inr (), l1, w1)"
  shows "heap (ndarray_setitem b i v w1) ! bias l1 = heap w1 ! bias l1 \<and>
         heap (ndarray_setitem b i v w1) ! theta l1 = heap w1 ! theta l1 \<and>
         heap (ndarray_setitem t i v w1) ! bias l1 = heap w1 ! bias l1 \<and>
         heap (ndarray_setitem t i v w1) ! theta l1 = heap w1 ! theta l1 \<and>
         heap (ndarray_setitem (fst (NetLayer_get_params l1)) i v w1) ! bias l1 =
           (heap w1 ! bias l1)\<lparr>elems := (elems (heap w1 ! bias l1))[i := v]\<rparr> \<and>
         heap (ndarray_setitem (snd (NetLayer_get_params l1)) i v w1) ! theta l1 =
           (heap w1 ! theta l1)\<lparr>elems := (elems (heap w1 ! theta l1))[i := v]\<rparr>"
proof -
  from assms(3) have l1: "bias l1 = length (heap w)" "theta l1 = Suc (length (heap w))"
    and h1: "heap w1 = heap w @ [copy_f32 env (read (heap w) b), copy_f32 env (read (heap w) t)]"
    by (auto simp: NetLayer_set_params_unfold split: if_splits)
  show ?thesis
    using assms(1,2) l1 h1
    by (simp add: ndarray_setitem_def NetLayer_get_params_def nth_append)
qed

theorem set_params_copies_get_params_aliases_witness:
  "base_of (Whole 0) < length (heap flat_world) \<and>
   base_of (Whole 1) < length (heap flat_world) \<and>
   NetLayer_set_params demo_env flat_layer (Whole 0) (Whole 1) flat_world =
     (Inr (), flat_layer\<lparr>bias := 2, theta := 3\<rparr>,
      flat_world\<lparr>heap := heap flat_world @ [heap flat_world ! 0, heap flat_world ! 1]\<rparr>) \<and>
   heap (ndarray_setitem (Whole 0) 0 9
           (flat_world\<lparr>heap := heap flat_world @ [heap flat_world ! 0, heap flat_world ! 1]\<rparr>))
     ! bias (flat_layer\<lparr>bias := 2, theta := 3\<rparr>) =
   heap (flat_world\<lparr>heap := heap flat_world @ [heap flat_world ! 0, heap flat_world ! 1]\<rparr>)
     ! bias (flat_layer\<lparr>bias := 2, theta := 3\<rparr>) \<and>
   heap (ndarray_setitem (fst (NetLayer_get_params (flat_layer\<lparr>bias := 2, theta := 3\<rparr>))) 0 9
           (flat_world\<lparr>heap := heap flat_world @ [heap flat_world ! 0, heap flat_world ! 1]\<rparr>))
     ! bias (flat_layer\<lparr>bias := 2, theta := 3\<rparr>) =
   \<lparr>dtype = Float32, shape = [2], elems = [9, 2]\<rparr>"
proof -
  have a: "base_of (Whole 0) < length (heap flat_world)" by code_simp
  have b: "base_of (Whole 1) < length (heap flat_world)" by code_simp
  have c: "NetLayer_set_params demo_env flat_layer (Whole 0) (Whole 1) flat_world =
     (Inr (), flat_layer\<lparr>bias := 2, theta := 3\<rparr>,
      flat_world\<lparr>heap := heap flat_world @ [heap flat_world ! 0, heap flat_world ! 1]\<rparr>)"
    by code_simp
  have d: "(heap (flat_world\<lparr>heap := heap flat_world @ [heap flat_world ! 0, heap flat_world ! 1]\<rparr>)
              ! bias (flat_layer\<lparr>bias := 2, theta := 3\<rparr>))
             \<lparr>elems := (elems (heap (flat_world\<lparr>heap := heap flat_world @
                  [heap flat_world ! 0, heap flat_world ! 1]\<rparr>)
                  ! bias (flat_layer\<lparr>bias := 2, theta := 3\<rparr>)))[0 := 9]\<rparr> =
           \<lparr>dtype = Float32, shape = [2], elems = [9, 2]\<rparr>"
    by code_simp
  show ?thesis
    using a b c d set_params_copies_get_params_aliases [OF a b c, of 0 9] by simp
qed

text \<open>
  Claim C3 as stated fails: the first array of the first pair \<^verbatim>\<open>get_params\<close> returns
  is the head layer's \<^verbatim>\<open>bias\<close> itself, and after \<^verbatim>\<open>b[0] = 7\<close> on it the layer holds
  other values.
\<close>

theorem get_params_returns_the_stored_arrays:
  "fst (NeuralNet_get_params demo_net ! 0) = Whole (bias (chain demo_net ! 0)) \<and>
   heap (ndarray_setitem (fst (NeuralNet_get_params demo_net ! 0)) 0 7 demo_world)
     ! bias (chain demo_net ! 0) \<noteq>
   heap demo_world ! bias (chain demo_net ! 0)"
  by code_simp

section \<open>\<^verbatim>\<open>set_params(get_params())\<close>\<close>

lemma copy_f32_id: "dtype x = Float32 \<Longrightarrow> copy_f32 env x = x"
  by (simp add: copy_f32_def)

lemma agree_poke: "agree n h h1 \<Longrightarrow> a < n \<Longrightarrow> agree n (poke a xs h) (poke a xs h1)"
  by (auto simp: agree_def poke_def nth_list_update)

lemma agree_poke_scratch:
  "agree n h h1 \<Longrightarrow> \<forall>a \<in> set (scratch_addrs ch). a < n \<Longrightarrow>
   agree n (poke_scratch ch outs h) (poke_scratch ch outs h1)"
proof (induction ch arbitrary: outs h h1)
  case Nil
  then show ?case by simp
next
  case (Cons l ls)
  show ?case
  proof (cases outs)
    case Nil
    then show ?thesis using Cons.prems by simp
  next
    case (Cons q qs)
    obtain xa xd where q: "q = (xa, xd)" by (cases q)
    have rest: "\<forall>a \<in> set (scratch_addrs ls). a < n"
      using Cons.prems(2) by (simp add: scratch_addrs_Cons)
    show ?thesis
    proof (cases "act l")
      case None
      then show ?thesis
        using Cons q Cons.IH [OF Cons.prems(1) rest] by simp
    next
      case (Some a)
      note a = this
      show ?thesis
      proof (cases "delta l")
        case None
        then show ?thesis
          using Cons q a Cons.IH [OF Cons.prems(1) rest] by simp
      next
        case (Some d)
        have an: "a < n" and dn: "d < n"
          using Cons.prems(2) a Some by (simp_all add: scratch_addrs_Cons)
        have "agree n (poke d xd (poke a xa h)) (poke d xd (poke a xa h1))"
          using Cons.prems(1) an dn by (simp add: agree_poke)
        from Cons.IH [OF this rest]
        show ?thesis using Cons q a Some by simp
      qed
    qed
  qed
qed

lemma same_layer_scratch:
  "list_all2 (same_layer S h h1) ch ch1 \<Longrightarrow> scratch_addrs ch1 = scratch_addrs ch"
  by (induction rule: list_all2_induct) (auto simp: scratch_addrs_def same_layer_def)

lemma same_layer_poke_scratch:
  "list_all2 (same_layer S h h1) ch ch1 \<Longrightarrow> poke_scratch ch1 outs g = poke_scratch ch outs g"
proof (induction arbitrary: outs g rule: list_all2_induct)
  case Nil
  show ?case by simp
next
  case (Cons l ls l1 ls1)
  then show ?case
    by (cases outs) (auto simp: same_layer_def split: option.splits)
qed

lemma same_layer_c_layer:
  assumes "same_layer S h h1 l l1" and "agree n h h1"
    and "\<forall>a \<in> set_option (act l) \<union> set_option (delta l). a < n"
  shows "c_layer h1 l1 = c_layer h l"
  using assms by (auto simp: same_layer_def c_layer_def agree_def split: option.splits)

lemma sim_c_chain:
  assumes "sim n h net h1 net1"
  shows "c_chain h1 (chain net1) = c_chain h (chain net)"
proof -
  from assms have ag: "agree n h h1"
    and sc: "\<forall>a \<in> set (scratch_addrs (chain net)). a < n"
    and la: "list_all2 (same_layer (set (scratch_addrs (chain net))) h h1) (chain net) (chain net1)"
    by (simp_all add: sim_def)
  have "map (c_layer h1) (chain net1) = map (c_layer h) (chain net)"
    using la sc
  proof (induction rule: list_all2_induct)
    case Nil
    show ?case by simp
  next
    case (Cons l ls l1 ls1)
    have "c_layer h1 l1 = c_layer h l"
      using Cons.hyps(1) ag Cons.prems
      by (intro same_layer_c_layer [where n = n and S = "set (scratch_addrs (chain net))"])
         (auto simp: scratch_addrs_Cons)
    moreover have "map (c_layer h1) ls1 = map (c_layer h) ls"
      using Cons.IH Cons.prems by (simp add: scratch_addrs_Cons)
    ultimately show ?case by simp
  qed
  moreover have "chain net1 = [] \<longleftrightarrow> chain net = []"
    using la by (auto dest: list_all2_lengthD)
  ultimately show ?thesis by (simp add: c_chain_def)
qed

lemma sim_predict_prob:
  assumes "sim n (heap w) net (heap w1) net1" and "base_of f < n"
  shows "result_value (predict_prob env net1 f w1) = result_value (predict_prob env net f w) \<and>
         sim n (heap (snd (predict_prob env net f w))) net
               (heap (snd (predict_prob env net1 f w1))) net1"
proof -
  let ?S = "set (scratch_addrs (chain net))"
  from assms(1) have ag: "agree n (heap w) (heap w1)"
    and nf: "n_features net1 = n_features net" and nl: "n_labels net1 = n_labels net"
    and bs: "batch_size net1 = batch_size net"
    and sc: "\<forall>a \<in> ?S. a < n"
    and la: "list_all2 (same_layer ?S (heap w) (heap w1)) (chain net) (chain net1)"
    by (simp_all add: sim_def)
  have F: "read (heap w1) f = read (heap w) f"
    using ag assms(2) by (intro read_cong) (simp add: agree_def)
  have cc: "c_chain (heap w1) (chain net1) = c_chain (heap w) (chain net)"
    using assms(1) by (rule sim_c_chain)
  show ?thesis
  proof (cases "length (shape (read (heap w) f)) < 2 \<or> int (shape (read (heap w) f) ! 1) \<noteq> n_features net
                \<or> n_labels net < 0 \<or> \<not> c_int_ok (int (shape (read (heap w) f) ! 0))
                \<or> c_chain (heap w) (chain net) = None")
    case True
    then show ?thesis
      using assms(1) F nf nl cc by (auto simp: predict_prob_def result_value_def)
  next
    case False
    then obtain cs where cs: "c_chain (heap w) (chain net) = Some cs" by auto
    obtain outs ps where o: "neural_predict_prob env cs (elems (copy_f32 env (read (heap w) f)))
                               (int (shape (read (heap w) f) ! 0)) (batch_size net) = (outs, ps)"
      by (cases "neural_predict_prob env cs (elems (copy_f32 env (read (heap w) f)))
                               (int (shape (read (heap w) f) ! 0)) (batch_size net)")
    let ?z = "np_zeros env [shape (read (heap w) f) ! 0, nat (n_labels net)]"
    let ?P = "?z\<lparr>elems := fit (elems ?z) ps\<rparr>"
    let ?g = "poke_scratch (chain net) outs (heap w)"
    let ?g1 = "poke_scratch (chain net) outs (heap w1)"
    have p: "predict_prob env net f w = (Inr (length ?g), w\<lparr>heap := ?g @ [?P]\<rparr>)"
      using False cs o by (simp add: predict_prob_def alloc_def Let_def)
    have ps1: "poke_scratch (chain net1) outs (heap w1) = ?g1"
      using la by (rule same_layer_poke_scratch)
    have p1: "predict_prob env net1 f w1 = (Inr (length ?g1), w1\<lparr>heap := ?g1 @ [?P]\<rparr>)"
      using False cs o F nf nl bs cc ps1 by (simp add: predict_prob_def alloc_def Let_def)
    have ag1: "agree n ?g ?g1"
      using ag sc by (rule agree_poke_scratch)
    have ag2: "agree n (?g @ [?P]) (?g1 @ [?P])"
      using ag1 by (auto simp: agree_def nth_append)
    have la2: "list_all2 (same_layer ?S (?g @ [?P]) (?g1 @ [?P])) (chain net) (chain net1)"
      using la
    proof (rule list_all2_mono)
      fix l l1 assume s: "same_layer ?S (heap w) (heap w1) l l1"
      have "(?g @ [?P]) ! bias l = heap w ! bias l" "(?g @ [?P]) ! theta l = heap w ! theta l"
        "(?g1 @ [?P]) ! bias l1 = heap w1 ! bias l1" "(?g1 @ [?P]) ! theta l1 = heap w1 ! theta l1"
        using s by (simp_all add: same_layer_def nth_append length_poke_scratch poke_scratch_other)
      then show "same_layer ?S (?g @ [?P]) (?g1 @ [?P]) l l1"
        using s by (simp add: same_layer_def length_poke_scratch)
    qed
    have "sim n (?g @ [?P]) net (?g1 @ [?P]) net1"
      using ag2 nf nl bs sc la2 by (simp add: sim_def)
    then show ?thesis
      using p p1 by (simp add: result_value_def nth_append)
  qed
qed

lemma sim_predict_seq:
  assumes "sim n (heap w) net (heap w1) net1" and "list_all (\<lambda>f. base_of f < n) fs"
  shows "predict_seq env net1 fs w1 = predict_seq env net fs w"
  using assms
proof (induction fs arbitrary: w w1)
  case Nil
  show ?case by simp
next
  case (Cons f fs)
  from Cons.prems have f: "base_of f < n" and fs: "list_all (\<lambda>f. base_of f < n) fs" by simp_all
  from sim_predict_prob [OF Cons.prems(1) f, of env]
  have r: "result_value (predict_prob env net1 f w1) = result_value (predict_prob env net f w)"
    and s: "sim n (heap (snd (predict_prob env net f w))) net
                  (heap (snd (predict_prob env net1 f w1))) net1"
    by simp_all
  show ?case
    using r Cons.IH [OF s fs] by simp
qed

lemma set_params_chain_get_params:
  assumes "\<forall>l \<in> set ch. bias l < length (heap w) \<and> theta l < length (heap w) \<and>
             dtype (heap w ! bias l) = Float32 \<and> dtype (heap w ! theta l) = Float32 \<and>
             bias l \<notin> S \<and> theta l \<notin> S"
    and "\<forall>a \<in> S. a < length (heap w)"
  shows "\<exists>r ch1 w1 hs. set_params_chain env ch (map NetLayer_get_params ch) w = (r, ch1, w1) \<and>
           heap w1 = heap w @ hs \<and> list_all2 (same_layer S (heap w) (heap w1)) ch ch1"
  using assms
proof (induction ch arbitrary: w)
  case Nil
  show ?case by simp
next
  case (Cons l ls)
  let ?h = "heap w"
  from Cons.prems(1) have l: "bias l < length ?h" "theta l < length ?h"
    "dtype (?h ! bias l) = Float32" "dtype (?h ! theta l) = Float32" "bias l \<notin> S" "theta l \<notin> S"
    by simp_all
  have refl: "list_all2 (same_layer S ?h ?h) (l # ls) (l # ls)"
    using Cons.prems(1) by (simp add: list_all2_same same_layer_def)
  show ?case
  proof (cases "int (np_size (?h ! bias l)) = out_nodes l \<and>
                int (np_size (?h ! theta l)) = c_int_mul (out_nodes l) (in_nodes l)")
    case False
    then have "NetLayer_set_params env l (Whole (bias l)) (Whole (theta l)) w = (Inl AssertionError, l, w)"
      by (simp add: NetLayer_set_params_unfold)
    then have "set_params_chain env (l # ls) (map NetLayer_get_params (l # ls)) w =
                 (Inl AssertionError, l # ls, w)"
      by (simp add: NetLayer_get_params_def)
    moreover have "heap w = heap w @ []" by simp
    ultimately show ?thesis
      using refl by blast
  next
    case True
    let ?l1 = "l\<lparr>bias := length ?h, theta := Suc (length ?h)\<rparr>"
    let ?w1 = "w\<lparr>heap := ?h @ [?h ! bias l, ?h ! theta l]\<rparr>"
    have sp: "NetLayer_set_params env l (Whole (bias l)) (Whole (theta l)) w = (Inr (), ?l1, ?w1)"
      using True l(3,4) by (simp add: NetLayer_set_params_unfold copy_f32_id)
    have p1: "\<forall>l \<in> set ls. bias l < length (heap ?w1) \<and> theta l < length (heap ?w1) \<and>
             dtype (heap ?w1 ! bias l) = Float32 \<and> dtype (heap ?w1 ! theta l) = Float32 \<and>
             bias l \<notin> S \<and> theta l \<notin> S"
      using Cons.prems(1) by (auto simp: nth_append)
    have p2: "\<forall>a \<in> S. a < length (heap ?w1)"
      using Cons.prems(2) by auto
    from Cons.IH [OF p1 p2]
    obtain r ch1 w2 hs where c: "set_params_chain env ls (map NetLayer_get_params ls) ?w1 = (r, ch1, w2)"
      and h: "heap w2 = heap ?w1 @ hs"
      and la: "list_all2 (same_layer S (heap ?w1) (heap w2)) ls ch1"
      by blast
    have la': "list_all2 (same_layer S ?h (heap w2)) ls ch1"
      using la
    proof (rule list.rel_mono_strong)
      fix x y assume x: "x \<in> set ls" and s: "same_layer S (heap ?w1) (heap w2) x y"
      have "bias x < length ?h" "theta x < length ?h"
        using Cons.prems(1) x by simp_all
      then show "same_layer S ?h (heap w2) x y"
        using s by (simp add: same_layer_def nth_append)
    qed
    have fresh: "length ?h \<notin> S" "Suc (length ?h) \<notin> S"
      using Cons.prems(2) by auto
    have hd: "same_layer S ?h (heap w2) l ?l1"
      using l h fresh by (simp add: same_layer_def nth_append)
    have gp: "map NetLayer_get_params (l # ls) = (Whole (bias l), Whole (theta l)) # map NetLayer_get_params ls"
      by (simp add: NetLayer_get_params_def)
    have "set_params_chain env (l # ls) (map NetLayer_get_params (l # ls)) w = (r, ?l1 # ch1, w2)"
      unfolding gp using sp c by simp
    moreover have "heap w2 = ?h @ ([?h ! bias l, ?h ! theta l] @ hs)"
      using h by simp
    moreover have "list_all2 (same_layer S ?h (heap w2)) (l # ls) (?l1 # ch1)"
      using la' hd by simp
    ultimately show ?thesis by blast
  qed
qed

lemma net_okD:
  assumes "net_ok h net" and "l \<in> set (chain net)"
  shows "bias l < length h \<and> theta l < length h \<and>
         dtype (h ! bias l) = Float32 \<and> dtype (h ! theta l) = Float32 \<and>
         bias l \<notin> set (scratch_addrs (chain net)) \<and>
         theta l \<notin> set (scratch_addrs (chain net)) \<and>
         (\<exists>a d. act l = Some a \<and> delta l = Some d \<and> a < length h \<and> d < length h)"
proof -
  have "bias l < length h \<and> theta l < length h \<and>
        dtype (h ! bias l) = Float32 \<and> dtype (h ! theta l) = Float32 \<and>
        bias l \<notin> set (scratch_addrs (chain net)) \<and>
        theta l \<notin> set (scratch_addrs (chain net)) \<and>
        (case act l of None \<Rightarrow> False | Some a \<Rightarrow> a < length h) \<and>
        (case delta l of None \<Rightarrow> False | Some d \<Rightarrow> d < length h)"
    using assms unfolding net_ok_def list_all_iff by blast
  then show ?thesis
    by (cases "act l"; cases "delta l") simp_all
qed

lemma net_ok_scratch_bound:
  assumes "net_ok h net" and "a \<in> set (scratch_addrs (chain net))"
  shows "a < length h"
proof -
  from assms(2) obtain l where l: "l \<in> set (chain net)" "act l = Some a \<or> delta l = Some a"
    by (auto simp: in_scratch_addrs)
  from net_okD [OF assms(1) l(1)]
  obtain a1 d1 where "act l = Some a1" "delta l = Some d1" "a1 < length h" "d1 < length h"
    by blast
  then show ?thesis using l(2) by auto
qed

lemma set_params_get_params_sim:
  assumes "net_ok (heap w) net"
  shows "\<exists>r net1 w1. NeuralNet_set_params env net (NeuralNet_get_params net) w = (r, net1, w1) \<and>
           sim (length (heap w)) (heap w) net (heap w1) net1"
proof -
  let ?S = "set (scratch_addrs (chain net))"
  have sc: "\<forall>a \<in> ?S. a < length (heap w)"
    using net_ok_scratch_bound [OF assms] by blast
  have pr: "\<forall>l \<in> set (chain net). bias l < length (heap w) \<and> theta l < length (heap w) \<and>
             dtype (heap w ! bias l) = Float32 \<and> dtype (heap w ! theta l) = Float32 \<and>
             bias l \<notin> ?S \<and> theta l \<notin> ?S"
    using net_okD [OF assms] by blast
  have refl: "sim (length (heap w)) (heap w) net (heap w) net"
    using sc pr by (simp add: sim_def agree_def list_all2_same same_layer_def)
  show ?thesis
  proof (cases "length (NeuralNet_get_params net) = length (layers net)")
    case False
    then show ?thesis using refl by (simp add: NeuralNet_set_params_def)
  next
    case True
    from set_params_chain_get_params [OF pr sc, of env]
    obtain r ch1 w1 hs where c: "set_params_chain env (chain net) (map NetLayer_get_params (chain net)) w = (r, ch1, w1)"
      and h: "heap w1 = heap w @ hs"
      and la: "list_all2 (same_layer ?S (heap w) (heap w1)) (chain net) ch1"
      by blast
    have "sim (length (heap w)) (heap w) net (heap w1) (net\<lparr>chain := ch1\<rparr>)"
      using h la sc by (simp add: sim_def agree_def nth_append)
    then show ?thesis
      using True c by (simp add: NeuralNet_set_params_def NeuralNet_get_params_def)
  qed
qed

text \<open>
  Claim C2. After \<^verbatim>\<open>net.set_params(net.get_params())\<close>, whatever the call returned,
  every sequence of \<^verbatim>\<open>predict_prob\<close> calls on arrays of the store (whole arrays
  or views) returns the values it would have returned without that call.
\<close>

theorem set_params_get_params_noop:
  assumes "net_ok (heap w) net" and "list_all (\<lambda>f. base_of f < length (heap w)) fs"
  shows "case NeuralNet_set_params env net (NeuralNet_get_params net) w of
           (r, net1, w1) \<Rightarrow> predict_seq env net1 fs w1 = predict_seq env net fs w"
proof -
  from set_params_get_params_sim [OF assms(1), of env]
  obtain r net1 w1 where s: "NeuralNet_set_params env net (NeuralNet_get_params net) w = (r, net1, w1)"
    and sm: "sim (length (heap w)) (heap w) net (heap w1) net1"
    by blast
  have "predict_seq env net1 fs w1 = predict_seq env net fs w"
    using sm assms(2) by (rule sim_predict_seq)
  then show ?thesis using s by simp
qed

theorem set_params_get_params_noop_witness:
  "net_ok (heap demo_world) demo_net \<and> list_all (\<lambda>f. base_of f < length (heap demo_world))
     [Whole 8, View 8 [2, 2] [0, 1, 4, 5], Whole 10] \<and>
   fst (NeuralNet_set_params demo_env demo_net (NeuralNet_get_params demo_net) demo_world) = Inr () \<and>
   (case NeuralNet_set_params demo_env demo_net (NeuralNet_get_params demo_net) demo_world of
      (r, net1, w1) \<Rightarrow>
        predict_seq demo_env net1 [Whole 8, View 8 [2, 2] [0, 1, 4, 5], Whole 10] w1 = predict_seq demo_env demo_net [Whole 8, View 8 [2, 2] [0, 1, 4, 5], Whole 10] demo_world)"
proof -
  have a: "net_ok (heap demo_world) demo_net" by code_simp
  have b: "list_all (\<lambda>f. base_of f < length (heap demo_world))
     [Whole 8, View 8 [2, 2] [0, 1, 4, 5], Whole 10]" by code_simp
  have c: "fst (NeuralNet_set_params demo_env demo_net (NeuralNet_get_params demo_net) demo_world) = Inr ()"
    by code_simp
  show ?thesis
    using a b c set_params_get_params_noop [OF a b, of demo_env] by simp
qed

section \<open>\<^verbatim>\<open>loads(dumps(net))\<close>\<close>

text \<open>
  The product \<^verbatim>\<open>self.out_nodes * self.in_nodes\<close> of a layer of 46341 by 46341 weights
  does not fit a C \<^verbatim>\<open>int\<close>: what the assertion of \<^verbatim>\<open>set_params\<close> compares
  \<^verbatim>\<open>np.size(theta)\<close> with is negative, so the layer accepts no array at all.
\<close>

lemma c_int_mul_46341: "c_int_mul 46341 46341 = - 2147479015"
  by (simp add: c_int_mul_def)

lemma NetLayer_set_params_wide_layer:
  assumes "in_nodes l = 46341" and "out_nodes l = 46341"
  shows "NetLayer_set_params env l b t w = (Inl AssertionError, l, w)"
proof -
  have "int (np_size (read (heap w) t)) \<noteq> c_int_mul (out_nodes l) (in_nodes l)"
    using assms by (simp add: c_int_mul_46341)
  then show ?thesis
    by (simp add: NetLayer_set_params_unfold)
qed

lemma two_layers:
  assumes "map in_nodes ch = [a, b]"
  shows "\<exists>l0 l1. ch = [l0, l1] \<and> in_nodes l0 = a \<and> in_nodes l1 = b"
  using assms by (cases ch; cases "tl ch") auto

text \<open>
  Claim C1, on the code. \<^verbatim>\<open>[46341, 46341]\<close> is a layer configuration the constructor
  accepts: two sizes, both positive C integers. For the network
  \<^verbatim>\<open>NeuralNet([46341, 46341])\<close>, whatever the random draws and the store it is built
  in, \<^verbatim>\<open>loads(dumps())\<close> does not return a network: the constructor inside
  \<^verbatim>\<open>loads\<close> succeeds, and \<^verbatim>\<open>set_params\<close> then raises \<^verbatim>\<open>AssertionError\<close> on the
  head layer, whose \<^verbatim>\<open>theta\<close> of 2147488281 weights is compared with the wrapped
  product -2147479015. Pickling is taken as the identity on the dictionary pickled.
\<close>

theorem loads_dumps_raises_on_wide_layer:
  "valid_layers [46341, 46341] \<and>
   (\<exists>net w1. NeuralNet_init env [46341, 46341] w = (Inr net, w1) \<and>
      (\<exists>w2. loads env Some (dumps (\<lambda>d. d) net w1) w1 = (Inl AssertionError, w2)))"
proof -
  let ?ls = "[46341, 46341] :: int list"
  have v: "valid_layers ?ls"
    by (simp add: valid_layers_def)
  from NeuralNet_init_ok [OF v, of env w]
  obtain net w1 where i: "NeuralNet_init env ?ls w = (Inr net, w1)"
    and ly: "layers net = ?ls" and inn: "map in_nodes (chain net) = ?ls"
    by auto
  from two_layers [OF inn] obtain l0 l1 where ch: "chain net = [l0, l1]"
    by blast
  let ?B0 = "heap w1 ! bias l0" and ?T0 = "heap w1 ! theta l0"
  let ?B1 = "heap w1 ! bias l1" and ?T1 = "heap w1 ! theta l1"
  let ?n = "length (heap w1)"
  let ?w1' = "w1\<lparr>heap := heap w1 @ [?B0, ?T0, ?B1, ?T1]\<rparr>"
  let ?ps = "[(Whole ?n, Whole (Suc ?n)), (Whole (Suc (Suc ?n)), Whole (Suc (Suc (Suc ?n))))]"
  have d: "dumps (\<lambda>d. d) net w1 =
             \<lparr>desc_layers = ?ls, desc_params = [(?B0, ?T0), (?B1, ?T1)]\<rparr>"
    using ly ch by (simp add: dumps_def NeuralNet_get_params_def NetLayer_get_params_def)
  have a: "alloc_params [(?B0, ?T0), (?B1, ?T1)] w1 = (?ps, ?w1')"
    by (simp add: alloc_def)
  from NeuralNet_init_ok [OF v, of env ?w1']
  obtain net2 w2 where i2: "NeuralNet_init env ?ls ?w1' = (Inr net2, w2)"
    and ly2: "layers net2 = ?ls" and inn2: "map in_nodes (chain net2) = ?ls"
    and out2: "map out_nodes (chain net2) = tl ?ls @ [0]"
    by auto
  from two_layers [OF inn2] obtain m0 m1 where ch2: "chain net2 = [m0, m1]"
    and m0: "in_nodes m0 = 46341"
    by blast
  have m0': "out_nodes m0 = 46341"
    using out2 ch2 by simp
  have sp: "NetLayer_set_params env m0 (Whole ?n) (Whole (Suc ?n)) w2 =
              (Inl AssertionError, m0, w2)"
    using m0 m0' by (rule NetLayer_set_params_wide_layer)
  have "NeuralNet_set_params env net2 ?ps w2 =
          (Inl AssertionError, net2\<lparr>chain := [m0, m1]\<rparr>, w2)"
    using ly2 ch2 sp by (simp add: NeuralNet_set_params_def)
  then have "loads env Some (dumps (\<lambda>d. d) net w1) w1 = (Inl AssertionError, w2)"
    using d a i2 by (simp add: loads_def)
  then show ?thesis
    using v i by blast
qed

end
